theory Spec2Isabelle
  imports Main
begin

section \<open>JavaScript values used by the sources\<close>

text \<open>
  A JavaScript string is modelled as a \<open>string\<close>, one \<open>char\<close> per code unit below 256.
  An optional property (\<open>x?: T\<close>) is a \<open>T option\<close>, \<open>None\<close> standing for \<open>undefined\<close>;
  a value that can be \<open>null\<close> at run time is a \<open>T nullable\<close>. A plain object used as a
  dictionary (\<open>Record<string, any>\<close>) is a map from its keys to its values.
\<close>

datatype json =
    JNull
  | JBool bool
  | JNum int
  | JStr string
  | JArr "json list"
  | JObj "(string \<times> json) list"

datatype 'a nullable = Null | Obj 'a

text \<open>
  An object the code builds by assignment: its own enumerable properties and its
  prototype. The prototype is \<open>Object.prototype\<close> for an object literal, and can become
  \<open>null\<close> or a parsed value (an object or an array, whose own prototype chain ends in
  \<open>Object.prototype\<close>) through an assignment to the key \<open>__proto__\<close>.
\<close>

datatype prototype = ObjectPrototype | NullPrototype | ValuePrototype json

record js_object =
  own :: "string \<rightharpoonup> json"
  proto :: prototype

text \<open>The object literal \<open>{}\<close>.\<close>

definition empty_object :: js_object where
  "empty_object = \<lparr>own = Map.empty, proto = ObjectPrototype\<rparr>"

text \<open>
  A property lookup for \<open>__proto__\<close> that starts at this prototype arrives at the
  accessor of \<open>Object.prototype\<close>: the chain does not end in \<open>null\<close> before it, and no
  parsed object on the way has an own property of that name (the parsers create one for
  a key \<open>__proto__\<close> of the text; an array has none).
\<close>

definition reaches_proto_accessor :: "prototype \<Rightarrow> bool" where
  "reaches_proto_accessor p =
     (case p of
        ObjectPrototype \<Rightarrow> True
      | NullPrototype \<Rightarrow> False
      | ValuePrototype v \<Rightarrow>
          (case v of JObj kvs \<Rightarrow> ''__proto__'' \<notin> fst ` set kvs | _ \<Rightarrow> True))"

text \<open>
  The assignment \<open>obj[k] = v\<close>. Every property on the prototype chains that occur is a
  writable data property, except the accessor \<open>__proto__\<close> of \<open>Object.prototype\<close>. So
  the assignment creates or overwrites an own property, unless the key is \<open>__proto__\<close>,
  the object has no own property of that name and the lookup arrives at the accessor:
  then the setter runs, which makes an object, an array or \<open>null\<close> the new prototype,
  ignores every other value, and in both cases adds no own property.
\<close>

definition js_assign :: "js_object \<Rightarrow> string \<Rightarrow> json \<Rightarrow> js_object" where
  "js_assign obj k v =
     (if k = ''__proto__'' \<and> ''__proto__'' \<notin> dom (own obj) \<and> reaches_proto_accessor (proto obj)
      then (case v of
              JNull \<Rightarrow> obj\<lparr>proto := NullPrototype\<rparr>
            | JObj kvs \<Rightarrow> obj\<lparr>proto := ValuePrototype v\<rparr>
            | JArr xs \<Rightarrow> obj\<lparr>proto := ValuePrototype v\<rparr>
            | _ \<Rightarrow> obj)
      else obj\<lparr>own := (own obj)(k \<mapsto> v)\<rparr>)"

text \<open>
  The assignment of every own property of a source object, one after the other
  (\<open>for (const [k, v] of Object.entries(src)) obj[k] = v\<close>, and \<open>Object.assign(obj, src)\<close>).
  The source is given by its own properties, a map; the order in which they are taken
  makes no difference, since the keys other than \<open>__proto__\<close> neither affect nor are
  affected by what the assignment to \<open>__proto__\<close> does (lemma \<open>assign_entries_loop\<close>).
\<close>

definition assign_entries :: "(string \<rightharpoonup> json) \<Rightarrow> js_object \<Rightarrow> js_object" where
  "assign_entries src obj =
     (let obj' = obj\<lparr>own := own obj ++ (src |` (- {''__proto__''}))\<rparr>
      in case src ''__proto__'' of
           None \<Rightarrow> obj'
         | Some v \<Rightarrow> js_assign obj' ''__proto__'' v)"

text \<open>Truthiness of an optional string: \<open>undefined\<close> and the empty string are falsy.\<close>

definition truthy :: "string option \<Rightarrow> bool" where
  "truthy v = (case v of None \<Rightarrow> False | Some s \<Rightarrow> s \<noteq> [])"

text \<open>\<open>String.prototype.endsWith\<close>.\<close>

definition endsWith :: "string \<Rightarrow> string \<Rightarrow> bool" where
  "endsWith s suf = (length suf \<le> length s \<and> drop (length s - length suf) s = suf)"

text \<open>
  \<open>String.prototype.trim\<close> strips white space and line terminators from both ends; below
  code unit 256 these are TAB, LF, VT, FF, CR, SPACE and NBSP.
\<close>

definition isWhiteSpace :: "char \<Rightarrow> bool" where
  "isWhiteSpace c = (of_char c \<in> {9, 10, 11, 12, 13, 32, 160 :: nat})"

definition trim :: "string \<Rightarrow> string" where
  "trim s = rev (dropWhile isWhiteSpace (rev (dropWhile isWhiteSpace s)))"

text \<open>Decimal rendering of a number inside a template literal.\<close>

fun string_of_nat :: "nat \<Rightarrow> string" where
  "string_of_nat n =
     (if n < 10 then [char_of (48 + n)]
      else string_of_nat (n div 10) @ [char_of (48 + n mod 10)])"

section \<open>config.ts\<close>

datatype auth_type = AuthNone | Basic | Bearer | ApiKey

record credentials =
  username :: "string option"
  password :: "string option"
  token :: "string option"
  apiKey :: "string option"
  apiKeyHeader :: string

record auth_config =
  auth_type :: auth_type
  credentials :: "credentials option"

record Config =
  swaggerUrl :: "string option"
  auth :: auth_config
  cacheTTL :: int

section \<open>auth.ts: AuthManager\<close>

text \<open>
  The part of an \<open>AxiosRequestConfig\<close> the code reads or writes. Every other property of
  the request (method, body, ...) lives in the record's extension part.
\<close>

record AxiosRequestConfig =
  headers :: "(string \<rightharpoonup> string) option"
  responseType :: "string option"

text \<open>\<open>auth.credentials?.f\<close> for an optional string field \<open>f\<close>.\<close>

definition cred :: "auth_config \<Rightarrow> (credentials \<Rightarrow> string option) \<Rightarrow> string option" where
  "cred a f = (case credentials a of None \<Rightarrow> None | Some c \<Rightarrow> f c)"

text \<open>
  \<open>requestConfig.headers[k] = v\<close>, once \<open>headers\<close> has been defaulted to an object. The
  header map holds the own properties of that object, a plain object with
  \<open>Object.prototype\<close> as its prototype. The value is a string, so for the key
  \<open>__proto__\<close> the setter of \<open>Object.prototype\<close> ignores it and no header is set, unless
  the object has an own property of that name already.
\<close>

definition set_header ::
  "string \<Rightarrow> string \<Rightarrow> 'a AxiosRequestConfig_scheme \<Rightarrow> 'a AxiosRequestConfig_scheme" where
  "set_header k v rc =
     (let h = (case headers rc of None \<Rightarrow> Map.empty | Some h \<Rightarrow> h)
      in if k = ''__proto__'' \<and> ''__proto__'' \<notin> dom h
         then rc\<lparr>headers := Some h\<rparr>
         else rc\<lparr>headers := Some (h(k \<mapsto> v))\<rparr>)"

text \<open>
  \<open>applyAuth\<close>. \<open>Config\<close> makes \<open>auth\<close> a required property, so the \<open>!auth\<close> half of
  the first guard never fires. \<open>Buffer.from(s).toString('base64')\<close> belongs to the
  platform and is the parameter \<open>base64\<close>.
\<close>

definition applyAuth ::
  "(string \<Rightarrow> string) \<Rightarrow> Config \<Rightarrow> 'a AxiosRequestConfig_scheme \<Rightarrow> 'a AxiosRequestConfig_scheme"
where
  "applyAuth base64 config requestConfig =
     (let a = auth config in
      if auth_type a = AuthNone then requestConfig
      else
        let rc = requestConfig\<lparr>headers :=
                   Some (case headers requestConfig of None \<Rightarrow> Map.empty | Some h \<Rightarrow> h)\<rparr>
        in case auth_type a of
             Basic \<Rightarrow>
               (if truthy (cred a username) \<and> truthy (cred a password)
                then set_header ''Authorization''
                       (''Basic '' @ base64 (the (cred a username) @ '':'' @ the (cred a password))) rc
                else rc)
           | Bearer \<Rightarrow>
               (if truthy (cred a token)
                then set_header ''Authorization'' (''Bearer '' @ the (cred a token)) rc
                else rc)
           | ApiKey \<Rightarrow>
               (if truthy (cred a apiKey)
                then let headerName =
                           (case credentials a of
                              None \<Rightarrow> ''X-API-Key''
                            | Some c \<Rightarrow> if apiKeyHeader c \<noteq> [] then apiKeyHeader c else ''X-API-Key'')
                     in set_header headerName (the (cred a apiKey)) rc
                else rc)
           | AuthNone \<Rightarrow> rc)"

text \<open>The entries of a request's header map; a request without a map has none.\<close>

definition header_entries :: "'a AxiosRequestConfig_scheme \<Rightarrow> (string \<rightharpoonup> string)" where
  "header_entries rc = (case headers rc of None \<Rightarrow> Map.empty | Some h \<Rightarrow> h)"

text \<open>
  The credential fields that activate a branch of \<open>applyAuth\<close> are all present and
  non-empty: user name and password for basic, the token for bearer, the key for apiKey.
\<close>

definition activating_credentials :: "Config \<Rightarrow> bool" where
  "activating_credentials config =
     (let a = auth config in
      case auth_type a of
        AuthNone \<Rightarrow> False
      | Basic \<Rightarrow> truthy (cred a username) \<and> truthy (cred a password)
      | Bearer \<Rightarrow> truthy (cred a token)
      | ApiKey \<Rightarrow> truthy (cred a apiKey))"

section \<open>swagger-fetcher.ts: the data model\<close>

record info =
  title :: string
  version :: string
  description :: "string option"

record components =
  schemas :: "(string \<rightharpoonup> json) option"
  securitySchemes :: "(string \<rightharpoonup> json) option"

record tag =
  tag_name :: string
  tag_description :: "string option"

text \<open>
  \<open>SwaggerDoc\<close>. The interface declares \<open>info\<close> and \<open>paths\<close> as required, but a parsed
  document is cast to the interface without validation, so both can be missing at run
  time; the code itself guards \<open>doc.paths || {}\<close> once. A map of the record holds the
  own enumerable properties of the object (what \<open>Object.entries\<close> and \<open>Object.assign\<close>
  read).
\<close>

record SwaggerDoc =
  openapi :: "string option"
  swagger :: "string option"
  info :: "info option"
  paths :: "(string \<rightharpoonup> json) option"
  components :: "components option"
  definitions :: "(string \<rightharpoonup> json) option"
  tags :: "tag list option"

record CombinedSwaggerDoc = SwaggerDoc +
  source :: "string option"

record api_config =
  apiUrl :: string
  apiName :: string

record SwaggerConfig =
  configUrl :: "string option"
  dom_id :: "string option"
  urls :: "api_config list option"

section \<open>swagger-fetcher.ts: getSchemas\<close>

definition getSchemas :: "'a SwaggerDoc_scheme \<Rightarrow> (string \<rightharpoonup> json)" where
  "getSchemas swaggerDoc =
     (if truthy (openapi swaggerDoc)
      then (case components swaggerDoc of
              None \<Rightarrow> Map.empty
            | Some c \<Rightarrow> (case schemas c of None \<Rightarrow> Map.empty | Some m \<Rightarrow> m))
      else (case definitions swaggerDoc of None \<Rightarrow> Map.empty | Some m \<Rightarrow> m))"

section \<open>The world outside the process\<close>

text \<open>
  The data of an HTTP response. The code tests \<open>typeof data === 'string'\<close> and hands a
  string to the parsers; data of any other type is cast, without a look at it, to the
  type the caller expects, so such data is given by what it is as a \<open>SwaggerDoc\<close> and
  as a \<open>SwaggerConfig\<close>.
\<close>

datatype response = Text string | NotText "SwaggerDoc nullable" "SwaggerConfig nullable"

text \<open>
  What the code calls and does not define: the HTTP client, the two parsers, the URL
  parser, the base64 encoder and the clock. \<open>None\<close> is a thrown exception (a rejected
  promise for \<open>axios.get\<close>). Within one top-level fetch the network answers a URL
  the same way each time it is asked. A fetch reads the clock twice: when it looks the
  cache up and when it stores its result.
\<close>

record world =
  axios_get :: "string \<Rightarrow> AxiosRequestConfig \<Rightarrow> response option"
  YAML_parse :: "string \<Rightarrow> SwaggerDoc nullable option"
  JSON_parse :: "string \<Rightarrow> SwaggerDoc nullable option"
  JSON_parse_config :: "string \<Rightarrow> SwaggerConfig nullable option"
  URL_origin :: "string \<Rightarrow> string option"
  toBase64 :: "string \<Rightarrow> string"
  now_lookup :: int
  now_store :: int

text \<open>Thrown values. \<open>Wrapped p e\<close> is \<open>new Error(`p: ${e}`)\<close>.\<close>

datatype error =
    RequestFailed string
  | EmptyResponse
  | UnparsableResponse
  | JsonSyntaxError
  | InvalidURL
  | TypeError
  | NoApiUrls
  | Wrapped string error

section \<open>auth.ts: authenticatedRequest\<close>

text \<open>
  Every call in the sources passes no request configuration, so \<open>config || {}\<close> is the
  empty object. The second component of the result is the trace of URLs requested.
\<close>

definition request_config :: "world \<Rightarrow> Config \<Rightarrow> AxiosRequestConfig" where
  "request_config w config =
     (applyAuth (toBase64 w) config \<lparr>headers = None, responseType = None\<rparr>)
       \<lparr>responseType := Some ''text''\<rparr>"

definition authenticatedRequest ::
  "world \<Rightarrow> Config \<Rightarrow> string \<Rightarrow> response option \<times> string list" where
  "authenticatedRequest w config u = (axios_get w u (request_config w config), [u])"

section \<open>swagger-fetcher.ts: SwaggerFetcher\<close>

record fetcher =
  cache :: "string \<rightharpoonup> (SwaggerDoc nullable \<times> int)"
  combinedDocs :: "(string \<times> CombinedSwaggerDoc) list"
  swaggerConfig :: "SwaggerConfig nullable"

definition new_fetcher :: fetcher where
  "new_fetcher = \<lparr>cache = Map.empty, combinedDocs = [], swaggerConfig = Null\<rparr>"

text \<open>
  \<open>Map.prototype.set\<close> on an insertion-ordered map: an existing key keeps its place and
  takes the new value, a new key goes to the end.
\<close>

fun map_set :: "'k \<Rightarrow> 'v \<Rightarrow> ('k \<times> 'v) list \<Rightarrow> ('k \<times> 'v) list" where
  "map_set k v [] = [(k, v)]"
| "map_set k v ((k', v') # kvs) =
     (if k' = k then (k, v) # kvs else (k', v') # map_set k v kvs)"

definition fetchSwaggerConfig ::
  "world \<Rightarrow> Config \<Rightarrow> string \<Rightarrow> (error + SwaggerConfig nullable) \<times> string list" where
  "fetchSwaggerConfig w config baseUrl =
     (let configUrl = baseUrl @ ''/swagger-config.json'';
          (configData, trace) = authenticatedRequest w config configUrl
      in case configData of
           None \<Rightarrow> (Inl (Wrapped ''Failed to fetch swagger-config.json'' (RequestFailed configUrl)), trace)
         | Some (Text text) \<Rightarrow>
             (case JSON_parse_config w text of
                None \<Rightarrow> (Inl (Wrapped ''Failed to fetch swagger-config.json'' JsonSyntaxError), trace)
              | Some parsedConfig \<Rightarrow> (Inr parsedConfig, trace))
         | Some (NotText asDoc asConfig) \<Rightarrow> (Inr asConfig, trace))"

definition fetchIndividualSwaggerDoc ::
  "world \<Rightarrow> Config \<Rightarrow> string \<Rightarrow> string \<Rightarrow> (error + SwaggerDoc nullable) \<times> string list" where
  "fetchIndividualSwaggerDoc w config baseUrl path =
     (let fullUrl = baseUrl @ ''/'' @ path;
          failed = Wrapped (''Failed to fetch individual Swagger doc from '' @ path);
          (docData, trace) = authenticatedRequest w config fullUrl
      in case docData of
           None \<Rightarrow> (Inl (failed (RequestFailed fullUrl)), trace)
         | Some (Text text) \<Rightarrow>
             if trim text = [] then (Inl (failed EmptyResponse), trace)
             else (case YAML_parse w text of
                     Some parsedData \<Rightarrow> (Inr parsedData, trace)
                   | None \<Rightarrow>
                       (case JSON_parse w text of
                          Some parsedData \<Rightarrow> (Inr parsedData, trace)
                        | None \<Rightarrow> (Inl (failed UnparsableResponse), trace)))
         | Some (NotText asDoc asConfig) \<Rightarrow> (Inr asDoc, trace))"

text \<open>The accumulators of the hub-mode loop.\<close>

record merged =
  allPaths :: js_object
  allSchemas :: js_object
  allTags :: "tag list"
  tagSet :: "string set"

definition no_merged :: merged where
  "no_merged = \<lparr>allPaths = empty_object, allSchemas = empty_object, allTags = [], tagSet = {}\<rparr>"

text \<open>\<open>{ ...doc, source: apiConfig.name }\<close>; spreading \<open>null\<close> adds no property.\<close>

definition docWithSource :: "SwaggerDoc nullable \<Rightarrow> string \<Rightarrow> CombinedSwaggerDoc" where
  "docWithSource doc n =
     (case doc of
        Null \<Rightarrow>
          \<lparr>openapi = None, swagger = None, info = None, paths = None, components = None,
           definitions = None, tags = None, source = Some n\<rparr>
      | Obj d \<Rightarrow>
          \<lparr>openapi = openapi d, swagger = swagger d, info = info d, paths = paths d,
           components = components d, definitions = definitions d, tags = tags d,
           source = Some n\<rparr>)"

text \<open>The three merge blocks of the loop body.\<close>

definition mergePaths :: "(string \<rightharpoonup> json) \<Rightarrow> merged \<Rightarrow> merged" where
  "mergePaths ps m = m\<lparr>allPaths := assign_entries ps (allPaths m)\<rparr>"

text \<open>\<open>doc.components?.schemas\<close>.\<close>

definition componentsSchemas :: "SwaggerDoc \<Rightarrow> (string \<rightharpoonup> json) option" where
  "componentsSchemas doc = (case components doc of None \<Rightarrow> None | Some c \<Rightarrow> schemas c)"

definition mergeSchemas :: "SwaggerDoc \<Rightarrow> merged \<Rightarrow> merged" where
  "mergeSchemas doc m =
     (case componentsSchemas doc of
        Some s \<Rightarrow> m\<lparr>allSchemas := assign_entries s (allSchemas m)\<rparr>
      | None \<Rightarrow>
          (case definitions doc of
             Some d \<Rightarrow> m\<lparr>allSchemas := assign_entries d (allSchemas m)\<rparr>
           | None \<Rightarrow> m))"

fun mergeTagList :: "tag list \<Rightarrow> merged \<Rightarrow> merged" where
  "mergeTagList [] m = m"
| "mergeTagList (t # ts) m =
     mergeTagList ts
       (if tag_name t \<in> tagSet m then m
        else m\<lparr>tagSet := insert (tag_name t) (tagSet m), allTags := allTags m @ [t]\<rparr>)"

definition mergeTags :: "SwaggerDoc \<Rightarrow> merged \<Rightarrow> merged" where
  "mergeTags doc m = (case tags doc of None \<Rightarrow> m | Some ts \<Rightarrow> mergeTagList ts m)"

text \<open>
  One iteration of the loop over \<open>swaggerConfig.urls\<close>: the \<open>try\<close> block and its
  \<open>catch\<close>, which only logs. The document is stored in \<open>combinedDocs\<close> before its paths
  are read; reading \<open>doc.paths\<close> of \<open>null\<close>, and \<open>Object.keys(doc.paths)\<close> of a
  document without paths, throw a TypeError that the same \<open>catch\<close> swallows.
\<close>

definition processApiConfig ::
  "world \<Rightarrow> Config \<Rightarrow> string \<Rightarrow> api_config \<Rightarrow> fetcher \<Rightarrow> merged \<Rightarrow> fetcher \<times> merged \<times> string list"
where
  "processApiConfig w config baseUrl apiConfig st m =
     (case fetchIndividualSwaggerDoc w config baseUrl (apiUrl apiConfig) of
        (Inl e, trace) \<Rightarrow> (st, m, trace)
      | (Inr doc, trace) \<Rightarrow>
          (let st' = st\<lparr>combinedDocs :=
                       map_set (apiName apiConfig) (docWithSource doc (apiName apiConfig))
                         (combinedDocs st)\<rparr>
           in case doc of
                Null \<Rightarrow> (st', m, trace)
              | Obj d \<Rightarrow>
                  (case paths d of
                     None \<Rightarrow> (st', m, trace)
                   | Some ps \<Rightarrow> (st', mergeTags d (mergeSchemas d (mergePaths ps m)), trace))))"

fun processAll ::
  "world \<Rightarrow> Config \<Rightarrow> string \<Rightarrow> api_config list \<Rightarrow> fetcher \<Rightarrow> merged \<Rightarrow> fetcher \<times> merged \<times> string list"
where
  "processAll w config baseUrl [] st m = (st, m, [])"
| "processAll w config baseUrl (apiConfig # rest) st m =
     (case processApiConfig w config baseUrl apiConfig st m of
        (st1, m1, trace1) \<Rightarrow>
          (case processAll w config baseUrl rest st1 m1 of
             (st2, m2, trace2) \<Rightarrow> (st2, m2, trace1 @ trace2)))"

text \<open>\<open>d?.components?.securitySchemes\<close> for the first retained document \<open>d\<close>, if any.\<close>

definition securitySchemesOf :: "CombinedSwaggerDoc option \<Rightarrow> (string \<rightharpoonup> json) option" where
  "securitySchemesOf first =
     (case first of
        None \<Rightarrow> None
      | Some d \<Rightarrow> (case components d of None \<Rightarrow> None | Some c \<Rightarrow> securitySchemes c))"

text \<open>\<open>this.combinedDocs.values().next().value\<close>.\<close>

definition firstDoc :: "fetcher \<Rightarrow> CombinedSwaggerDoc option" where
  "firstDoc st = (case combinedDocs st of [] \<Rightarrow> None | (k, d) # _ \<Rightarrow> Some d)"

text \<open>
  The combined document. Its \<open>paths\<close> and \<open>components.schemas\<close> are the two accumulator
  objects; as everywhere in a \<open>SwaggerDoc\<close>, the record shows their own properties.
\<close>

definition combinedDoc :: "fetcher \<Rightarrow> merged \<Rightarrow> nat \<Rightarrow> SwaggerDoc" where
  "combinedDoc st m n =
     \<lparr>openapi = (case firstDoc st of None \<Rightarrow> None | Some d \<Rightarrow> openapi d),
      swagger = (case firstDoc st of None \<Rightarrow> None | Some d \<Rightarrow> swagger d),
      info = Some \<lparr>title = ''Combined API Documentation'', version = ''1.0.0'',
                   description = Some (''Combined documentation from '' @ string_of_nat n
                                        @ '' API sources'')\<rparr>,
      paths = Some (own (allPaths m)),
      components = Some \<lparr>schemas = Some (own (allSchemas m)),
                         securitySchemes = securitySchemesOf (firstDoc st)\<rparr>,
      definitions = None,
      tags = Some (allTags m)\<rparr>"

definition isDirectUrl :: "string \<Rightarrow> bool" where
  "isDirectUrl u = (endsWith u ''.json'' \<or> endsWith u ''.yaml'' \<or> endsWith u ''.yml'')"

definition failedDoc :: "error \<Rightarrow> error" where
  "failedDoc = Wrapped ''Failed to fetch Swagger documentation''"

text \<open>The branch of \<open>fetchSwaggerDoc\<close> for a direct document.\<close>

definition fetchDirect ::
  "world \<Rightarrow> Config \<Rightarrow> string \<Rightarrow> fetcher \<Rightarrow> (error + SwaggerDoc nullable) \<times> fetcher \<times> string list"
where
  "fetchDirect w config u st =
     (let (docData, trace) = authenticatedRequest w config u;
          stored = (\<lambda>parsedDoc.
            (Inr parsedDoc, st\<lparr>cache := (cache st)(u \<mapsto> (parsedDoc, now_store w))\<rparr>, trace))
      in case docData of
           None \<Rightarrow> (Inl (failedDoc (failedDoc (RequestFailed u))), st, trace)
         | Some (Text text) \<Rightarrow>
             (case YAML_parse w text of
                Some parsedData \<Rightarrow> stored parsedData
              | None \<Rightarrow>
                  (case JSON_parse w text of
                     Some parsedData \<Rightarrow> stored parsedData
                   | None \<Rightarrow> (Inl (failedDoc (failedDoc UnparsableResponse)), st, trace)))
         | Some (NotText asDoc asConfig) \<Rightarrow> stored asDoc)"

text \<open>The branch of \<open>fetchSwaggerDoc\<close> for a hub: the registry, then every document it lists.\<close>

definition fetchHub ::
  "world \<Rightarrow> Config \<Rightarrow> string \<Rightarrow> fetcher \<Rightarrow> (error + SwaggerDoc nullable) \<times> fetcher \<times> string list"
where
  "fetchHub w config u st =
     (case URL_origin w u of
        None \<Rightarrow> (Inl (failedDoc InvalidURL), st, [])
      | Some baseUrl \<Rightarrow>
          (case fetchSwaggerConfig w config baseUrl of
             (Inl e, trace0) \<Rightarrow> (Inl (failedDoc e), st, trace0)
           | (Inr parsedConfig, trace0) \<Rightarrow>
               (let st1 = st\<lparr>swaggerConfig := parsedConfig\<rparr>
                in case parsedConfig of
                     Null \<Rightarrow> (Inl (failedDoc TypeError), st1, trace0)
                   | Obj c \<Rightarrow>
                       (case urls c of
                          None \<Rightarrow> (Inl (failedDoc NoApiUrls), st1, trace0)
                        | Some [] \<Rightarrow> (Inl (failedDoc NoApiUrls), st1, trace0)
                        | Some (a # as) \<Rightarrow>
                            (case processAll w config baseUrl (a # as)
                                    (st1\<lparr>combinedDocs := []\<rparr>) no_merged of
                               (st2, m, trace1) \<Rightarrow>
                                 (let doc = Obj (combinedDoc st2 m (length (a # as)))
                                  in (Inr doc,
                                      st2\<lparr>cache := (cache st2)(u \<mapsto> (doc, now_store w))\<rparr>,
                                      trace0 @ trace1)))))))"

definition fetchSwaggerDoc ::
  "world \<Rightarrow> Config \<Rightarrow> string \<Rightarrow> fetcher \<Rightarrow> (error + SwaggerDoc nullable) \<times> fetcher \<times> string list"
where
  "fetchSwaggerDoc w config u st =
     (case cache st u of
        Some (data, timestamp) \<Rightarrow>
          if now_lookup w - timestamp < cacheTTL config then (Inr data, st, [])
          else if isDirectUrl u then fetchDirect w config u st else fetchHub w config u st
      | None \<Rightarrow>
          if isDirectUrl u then fetchDirect w config u st else fetchHub w config u st)"

record api_source =
  source_name :: string

definition getApiSources :: "fetcher \<Rightarrow> api_source list" where
  "getApiSources st =
     (case swaggerConfig st of
        Null \<Rightarrow> []
      | Obj c \<Rightarrow>
          (case urls c of
             None \<Rightarrow> []
           | Some us \<Rightarrow> map (\<lambda>src. \<lparr>source_name = apiName src\<rparr>) us))"

definition getDocBySource :: "fetcher \<Rightarrow> string \<Rightarrow> CombinedSwaggerDoc option" where
  "getDocBySource st sourceName = map_of (combinedDocs st) sourceName"

section \<open>Concrete requests, documents and worlds\<close>

text \<open>
  Inputs on which the statements below are evaluated. A world is given by tables: the
  text the network returns for each URL (a URL that is not listed fails; every response
  is a text, as \<open>responseType: 'text'\<close> asks), the value
  \<open>YAML.parse\<close> returns for each text (a text that is not listed makes both parsers
  throw) and the value \<open>JSON.parse\<close> returns for each registry text.
\<close>

definition https_origin :: "string \<Rightarrow> string option" where
  "https_origin u =
     (if take 8 u = ''https://'' \<and> drop 8 u \<noteq> []
      then Some (''https://'' @ takeWhile (\<lambda>c. c \<noteq> CHR ''/'') (drop 8 u))
      else None)"

definition table_world ::
  "(string \<times> string) list \<Rightarrow> (string \<times> SwaggerDoc nullable) list \<Rightarrow>
   (string \<times> SwaggerConfig nullable) list \<Rightarrow> int \<Rightarrow> int \<Rightarrow> world" where
  "table_world net docs registries t0 t1 =
     \<lparr>axios_get = (\<lambda>u rc. map_option Text (map_of net u)),
      YAML_parse = map_of docs,
      JSON_parse = (\<lambda>t. None),
      JSON_parse_config = map_of registries,
      URL_origin = https_origin,
      toBase64 = (\<lambda>s. s),
      now_lookup = t0,
      now_store = t1\<rparr>"

definition no_auth :: Config where
  "no_auth =
     \<lparr>swaggerUrl = None, auth = \<lparr>auth_type = AuthNone, credentials = None\<rparr>,
      cacheTTL = 300000\<rparr>"

definition empty_key_config :: Config where
  "empty_key_config =
     \<lparr>swaggerUrl = None,
      auth = \<lparr>auth_type = ApiKey,
              credentials = Some \<lparr>username = None, password = None, token = None,
                                  apiKey = Some [], apiKeyHeader = ''X-Key''\<rparr>\<rparr>,
      cacheTTL = 300000\<rparr>"

definition accept_request :: AxiosRequestConfig where
  "accept_request = \<lparr>headers = Some [''Accept'' \<mapsto> ''text/plain''], responseType = None\<rparr>"

definition modern_both :: SwaggerDoc where
  "modern_both =
     \<lparr>openapi = Some ''3.0.0'', swagger = None, info = None,
      paths = Some Map.empty,
      components = Some \<lparr>schemas = Some [''Pet'' \<mapsto> JStr ''modern''], securitySchemes = None\<rparr>,
      definitions = Some [''Old'' \<mapsto> JStr ''legacy''],
      tags = None\<rparr>"

definition legacy_both :: SwaggerDoc where
  "legacy_both =
     \<lparr>openapi = None, swagger = Some ''2.0'', info = None,
      paths = Some Map.empty,
      components = Some \<lparr>schemas = Some [''Pet'' \<mapsto> JStr ''modern''], securitySchemes = None\<rparr>,
      definitions = Some [''Old'' \<mapsto> JStr ''legacy''],
      tags = None\<rparr>"

definition direct_url :: string where
  "direct_url = ''https://api.example/openapi.yaml''"

definition hub_url :: string where
  "hub_url = ''https://hub.example/docs''"

definition petstore_text :: string where
  "petstore_text = ''{openapi: 3.0.0, paths: {/pets: {}}}''"

definition petstore :: SwaggerDoc where
  "petstore =
     \<lparr>openapi = Some ''3.0.0'', swagger = None, info = None,
      paths = Some [''/pets'' \<mapsto> JObj []],
      components = None, definitions = None, tags = None\<rparr>"

text \<open>A fetcher whose cache holds a document for \<open>direct_url\<close>, stored at time 1000.\<close>

definition cached_fetcher :: fetcher where
  "cached_fetcher = new_fetcher\<lparr>cache := [direct_url \<mapsto> (Obj legacy_both, 1000)]\<rparr>"

text \<open>A network on which every request fails, and one that serves \<open>petstore_text\<close>.\<close>

definition offline :: "int \<Rightarrow> world" where
  "offline t = table_world [] [] [] t (t + 5)"

definition petstore_world :: "int \<Rightarrow> world" where
  "petstore_world t =
     table_world [(direct_url, petstore_text)] [(petstore_text, Obj petstore)] [] t (t + 5)"

text \<open>A hub whose registry lists three documents.\<close>

definition hub_base :: string where
  "hub_base = ''https://hub.example''"

definition registry_url :: string where
  "registry_url = ''https://hub.example/swagger-config.json''"

definition registry_text :: string where
  \<open>registry_text = ''{"urls":[{"url":"a.yaml","name":"alpha"},{"url":"b.yaml","name":"beta"},{"url":"c.yaml","name":"gamma"}]}''\<close>

definition registry :: SwaggerConfig where
  "registry =
     \<lparr>configUrl = None, dom_id = None,
      urls = Some [\<lparr>apiUrl = ''a.yaml'', apiName = ''alpha''\<rparr>,
                   \<lparr>apiUrl = ''b.yaml'', apiName = ''beta''\<rparr>,
                   \<lparr>apiUrl = ''c.yaml'', apiName = ''gamma''\<rparr>]\<rparr>"

text \<open>Only the registry can be fetched; every document it lists is unreachable.\<close>

definition registry_only :: world where
  "registry_only =
     table_world [(registry_url, registry_text)] [] [(registry_text, Obj registry)] 2000 2005"

text \<open>
  Two documents that share the path \<open>/shared\<close>, the schema \<open>Item\<close> and the tag
  \<open>users\<close>, and a world in which the first and the third document of the registry can be
  fetched and the second cannot.
\<close>

definition alpha_text :: string where
  "alpha_text = ''{openapi: 3.0.0, paths: {/a: alpha, /shared: alpha}, components: {schemas: {Item: alpha}, securitySchemes: {key: alpha}}, tags: [{name: users, description: from alpha}]}''"

definition alpha_doc :: SwaggerDoc where
  "alpha_doc =
     \<lparr>openapi = Some ''3.0.0'', swagger = None, info = None,
      paths = Some [''/a'' \<mapsto> JStr ''alpha'', ''/shared'' \<mapsto> JStr ''alpha''],
      components = Some \<lparr>schemas = Some [''Item'' \<mapsto> JStr ''alpha''],
                         securitySchemes = Some [''key'' \<mapsto> JStr ''alpha'']\<rparr>,
      definitions = None,
      tags = Some [\<lparr>tag_name = ''users'', tag_description = Some ''from alpha''\<rparr>]\<rparr>"

definition gamma_text :: string where
  "gamma_text = ''{openapi: 3.1.0, paths: {/c: gamma, /shared: gamma}, components: {schemas: {Item: gamma, Extra: gamma}}, tags: [{name: users, description: from gamma}, {name: pets}]}''"

definition gamma_doc :: SwaggerDoc where
  "gamma_doc =
     \<lparr>openapi = Some ''3.1.0'', swagger = None, info = None,
      paths = Some [''/c'' \<mapsto> JStr ''gamma'', ''/shared'' \<mapsto> JStr ''gamma''],
      components = Some \<lparr>schemas = Some [''Item'' \<mapsto> JStr ''gamma'', ''Extra'' \<mapsto> JStr ''gamma''],
                         securitySchemes = None\<rparr>,
      definitions = None,
      tags = Some [\<lparr>tag_name = ''users'', tag_description = Some ''from gamma''\<rparr>,
                   \<lparr>tag_name = ''pets'', tag_description = None\<rparr>]\<rparr>"

definition hub_net :: "(string \<times> string) list" where
  "hub_net =
     [(''https://hub.example/a.yaml'', alpha_text),
      (''https://hub.example/c.yaml'', gamma_text)]"

definition hub_docs :: "(string \<times> SwaggerDoc nullable) list" where
  "hub_docs = [(alpha_text, Obj alpha_doc), (gamma_text, Obj gamma_doc)]"

definition hub_world :: world where
  "hub_world =
     table_world ((registry_url, registry_text) # hub_net) hub_docs
       [(registry_text, Obj registry)] 2000 2005"

text \<open>
  A hub with a single document, which says \<open>swagger: "2.0"\<close> and carries both a
  \<open>components.schemas\<close> and a \<open>definitions\<close> map (\<open>legacy_both\<close>).
\<close>

definition legacy_text :: string where
  \<open>legacy_text = ''{"swagger":"2.0","paths":{},"components":{"schemas":{"Pet":"modern"}},"definitions":{"Old":"legacy"}}''\<close>

definition legacy_registry_text :: string where
  \<open>legacy_registry_text = ''{"urls":[{"url":"legacy.json","name":"legacy"}]}''\<close>

definition legacy_registry :: SwaggerConfig where
  "legacy_registry =
     \<lparr>configUrl = None, dom_id = None,
      urls = Some [\<lparr>apiUrl = ''legacy.json'', apiName = ''legacy''\<rparr>]\<rparr>"

definition legacy_world :: world where
  "legacy_world =
     table_world
       [(registry_url, legacy_registry_text), (''https://hub.example/legacy.json'', legacy_text)]
       [(legacy_text, Obj legacy_both)]
       [(legacy_registry_text, Obj legacy_registry)] 2000 2005"


text \<open>
  A direct document whose body is empty, and a hub document whose body is two spaces;
  \<open>YAML.parse\<close> turns the empty text into \<open>null\<close> without throwing.
\<close>

definition blank_world :: world where
  "blank_world =
     table_world [(direct_url, []), (''https://hub.example/a.yaml'', ''  '')] [([], Null)] []
       2000 2005"

text \<open>The fetcher after a hub-mode fetch, and after a direct fetch that follows it.\<close>

definition after_hub :: fetcher where
  "after_hub = fst (snd (fetchSwaggerDoc hub_world no_auth hub_url new_fetcher))"

definition after_direct :: fetcher where
  "after_direct = fst (snd (fetchSwaggerDoc (petstore_world 3000) no_auth direct_url after_hub))"

text \<open>
  The hub at a later time, and a fetcher whose cache holds a document for \<open>hub_url\<close>,
  stored at time 1000.
\<close>

definition late_hub_world :: world where
  "late_hub_world =
     table_world ((registry_url, registry_text) # hub_net) hub_docs
       [(registry_text, Obj registry)] 400000 400005"

definition cached_hub_fetcher :: fetcher where
  "cached_hub_fetcher = new_fetcher\<lparr>cache := [hub_url \<mapsto> (Obj legacy_both, 1000)]\<rparr>"

section \<open>Notions used in the statements\<close>

text \<open>The cache holds an entry for the URL that is still within its time to live.\<close>

definition fresh_entry :: "world \<Rightarrow> Config \<Rightarrow> fetcher \<Rightarrow> string \<Rightarrow> bool" where
  "fresh_entry w config st u =
     (case cache st u of
        None \<Rightarrow> False
      | Some (data, timestamp) \<Rightarrow> now_lookup w - timestamp < cacheTTL config)"

text \<open>The URL requested for a registry entry.\<close>

definition fullUrl :: "string \<Rightarrow> api_config \<Rightarrow> string" where
  "fullUrl b a = b @ ''/'' @ apiUrl a"

text \<open>
  The URL is handled in hub mode up to the loop: its origin is \<open>b\<close>, the registry at
  \<open>b/swagger-config.json\<close> was fetched and parsed to \<open>c\<close>, and \<open>c\<close> lists the entries
  \<open>us\<close>, at least one.
\<close>

definition hub_ready :: "world \<Rightarrow> Config \<Rightarrow> string \<Rightarrow> string \<Rightarrow> SwaggerConfig \<Rightarrow> api_config list \<Rightarrow> bool" where
  "hub_ready w config u b c us =
     (URL_origin w u = Some b \<and>
      fst (fetchSwaggerConfig w config b) = Inr (Obj c) \<and>
      urls c = Some us \<and> us \<noteq> [])"

text \<open>
  Deduplication of a tag list by name in which the first tag of each name wins, written
  after the specification's words rather than after the loop.
\<close>

fun first_by_name :: "tag list \<Rightarrow> tag list" where
  "first_by_name [] = []"
| "first_by_name (t # ts) = t # first_by_name (filter (\<lambda>t'. tag_name t' \<noteq> tag_name t) ts)"

text \<open>The tags a document declares, and the schemas the merge takes from it.\<close>

definition tags_of :: "SwaggerDoc \<Rightarrow> tag list" where
  "tags_of d = (case tags d of None \<Rightarrow> [] | Some ts \<Rightarrow> ts)"

definition schemas_of :: "SwaggerDoc \<Rightarrow> (string \<rightharpoonup> json)" where
  "schemas_of d =
     (case componentsSchemas d of
        Some s \<Rightarrow> s
      | None \<Rightarrow> (case definitions d of Some x \<Rightarrow> x | None \<Rightarrow> Map.empty))"

text \<open>The document a fetch returned, if it returned one that is not \<open>null\<close>.\<close>

definition returned ::
  "(error + SwaggerDoc nullable) \<times> fetcher \<times> string list \<Rightarrow> SwaggerDoc option" where
  "returned r = (case fst r of Inr (Obj d) \<Rightarrow> Some d | _ \<Rightarrow> None)"

text \<open>\<open>doc.components?.securitySchemes\<close> of a document.\<close>

definition security_of :: "SwaggerDoc \<Rightarrow> (string \<rightharpoonup> json) option" where
  "security_of d = (case components d of None \<Rightarrow> None | Some c \<Rightarrow> securitySchemes c)"

text \<open>The paths a document declares.\<close>

definition paths_of :: "SwaggerDoc \<Rightarrow> (string \<rightharpoonup> json)" where
  "paths_of d = (case paths d of None \<Rightarrow> Map.empty | Some ps \<Rightarrow> ps)"

text \<open>
  The sources of a registry that survive: the documents, in registry order, of the
  entries whose fetch returned a document that has a \<open>paths\<close> object.
\<close>

definition merged_source :: "world \<Rightarrow> Config \<Rightarrow> string \<Rightarrow> api_config \<Rightarrow> SwaggerDoc option" where
  "merged_source w config b a =
     (case fst (fetchIndividualSwaggerDoc w config b (apiUrl a)) of
        Inr (Obj d) \<Rightarrow> (if paths d = None then None else Some d)
      | _ \<Rightarrow> None)"

definition merged_sources :: "world \<Rightarrow> Config \<Rightarrow> string \<Rightarrow> api_config list \<Rightarrow> SwaggerDoc list" where
  "merged_sources w config b us = List.map_filter (merged_source w config b) us"

section \<open>How a fetch proceeds\<close>

lemma fetchSwaggerDoc_miss:
  "\<not> fresh_entry w config st u \<Longrightarrow>
   fetchSwaggerDoc w config u st =
     (if isDirectUrl u then fetchDirect w config u st else fetchHub w config u st)"
  by (auto simp: fetchSwaggerDoc_def fresh_entry_def split: option.splits response.splits)

lemma fetchSwaggerDoc_hit:
  "cache st u = Some (d, ts) \<Longrightarrow> now_lookup w - ts < cacheTTL config \<Longrightarrow>
   fetchSwaggerDoc w config u st = (Inr d, st, [])"
  by (simp add: fetchSwaggerDoc_def)

lemma fetchDirect_cases:
  "(\<exists>e. fetchDirect w config u st = (Inl e, st, [u])) \<or>
   (\<exists>d. fetchDirect w config u st
          = (Inr d, st\<lparr>cache := (cache st)(u \<mapsto> (d, now_store w))\<rparr>, [u]))"
  by (simp add: fetchDirect_def authenticatedRequest_def Let_def split: option.splits response.splits)

lemma fetchDirect_result_any_state:
  "fst (fetchDirect w config u st) = fst (fetchDirect w config u st')"
  by (simp add: fetchDirect_def authenticatedRequest_def Let_def split: option.splits response.splits)

lemma fetchHub_cases:
  "(\<exists>e st' tr. fetchHub w config u st = (Inl e, st', tr) \<and> cache st' = cache st) \<or>
   (\<exists>d st' tr. fetchHub w config u st = (Inr d, st', tr))"
  by (simp add: fetchHub_def Let_def del: processAll.simps
        split: option.splits prod.splits sum.splits nullable.splits list.splits response.splits)

lemma fetchHub_success:
  assumes "URL_origin w u = Some b"
    and "fetchSwaggerConfig w config b = (Inr (Obj c), tr0)"
    and "urls c = Some us" and "us \<noteq> []"
    and "processAll w config b us (st\<lparr>swaggerConfig := Obj c, combinedDocs := []\<rparr>) no_merged
           = (st2, m, tr1)"
  shows "fetchHub w config u st =
           (Inr (Obj (combinedDoc st2 m (length us))),
            st2\<lparr>cache := (cache st2)(u \<mapsto> (Obj (combinedDoc st2 m (length us)), now_store w))\<rparr>,
            tr0 @ tr1)"
proof -
  from \<open>us \<noteq> []\<close> obtain a as where us: "us = a # as" by (cases us) auto
  show ?thesis
    using assms unfolding us
    by (simp add: fetchHub_def Let_def del: processAll.simps)
qed


lemma fetchIndividualSwaggerDoc_trace:
  "snd (fetchIndividualSwaggerDoc w config b p) = [b @ ''/'' @ p]"
  by (simp add: fetchIndividualSwaggerDoc_def authenticatedRequest_def Let_def split: option.splits response.splits)

lemma processApiConfig_trace:
  "snd (snd (processApiConfig w config b a st m)) = [fullUrl b a]"
  using fetchIndividualSwaggerDoc_trace [of w config b "apiUrl a"]
  by (auto simp add: processApiConfig_def fullUrl_def Let_def
        split: prod.splits sum.splits nullable.splits option.splits response.splits)

lemma processApiConfig_failed:
  "isl (fst (fetchIndividualSwaggerDoc w config b (apiUrl a))) \<Longrightarrow>
   processApiConfig w config b a st m = (st, m, [fullUrl b a])"
  using fetchIndividualSwaggerDoc_trace [of w config b "apiUrl a"]
  by (auto simp add: processApiConfig_def fullUrl_def Let_def
        split: prod.splits sum.splits nullable.splits option.splits response.splits)

lemma processApiConfig_frame:
  "fst (processApiConfig w config b a st m)
     = st\<lparr>combinedDocs := combinedDocs (fst (processApiConfig w config b a st m))\<rparr>"
  by (simp add: processApiConfig_def Let_def
        split: prod.splits sum.splits nullable.splits option.splits response.splits)

lemma processApiConfig_indep:
  "combinedDocs st = combinedDocs st' \<Longrightarrow>
   combinedDocs (fst (processApiConfig w config b a st m))
     = combinedDocs (fst (processApiConfig w config b a st' m)) \<and>
   snd (processApiConfig w config b a st m) = snd (processApiConfig w config b a st' m)"
  by (simp add: processApiConfig_def Let_def
        split: prod.splits sum.splits nullable.splits option.splits response.splits)

lemma processAll_Cons:
  "processAll w config b (a # as) st m =
     (let p = processApiConfig w config b a st m;
          q = processAll w config b as (fst p) (fst (snd p))
      in (fst q, fst (snd q), snd (snd p) @ snd (snd q)))"
  by (simp add: Let_def split: prod.splits)

lemma processAll_trace:
  "snd (snd (processAll w config b as st m)) = map (fullUrl b) as"
  by (induction as arbitrary: st m)
     (simp_all add: processAll_Cons processApiConfig_trace Let_def del: processAll.simps(2))

lemma processAll_frame:
  "fst (processAll w config b as st m)
     = st\<lparr>combinedDocs := combinedDocs (fst (processAll w config b as st m))\<rparr>"
proof (induction as arbitrary: st m)
  case Nil
  show ?case by simp
next
  case (Cons a as)
  let ?p = "processApiConfig w config b a st m"
  have "fst (processAll w config b (a # as) st m)
          = fst (processAll w config b as (fst ?p) (fst (snd ?p)))"
    by (simp add: processAll_Cons Let_def del: processAll.simps(2))
  also have "\<dots> = (fst ?p)\<lparr>combinedDocs :=
                 combinedDocs (fst (processAll w config b as (fst ?p) (fst (snd ?p))))\<rparr>"
    by (rule Cons.IH)
  also have "\<dots> = st\<lparr>combinedDocs :=
                 combinedDocs (fst (processAll w config b as (fst ?p) (fst (snd ?p))))\<rparr>"
    by (subst processApiConfig_frame) simp
  finally show ?case
    by (simp add: processAll_Cons Let_def del: processAll.simps(2))
qed

lemma processAll_indep:
  "combinedDocs st = combinedDocs st' \<Longrightarrow>
   combinedDocs (fst (processAll w config b as st m))
     = combinedDocs (fst (processAll w config b as st' m)) \<and>
   snd (processAll w config b as st m) = snd (processAll w config b as st' m)"
proof (induction as arbitrary: st st' m)
  case Nil
  then show ?case by simp
next
  case (Cons a as)
  let ?p = "processApiConfig w config b a st m"
  let ?p' = "processApiConfig w config b a st' m"
  from processApiConfig_indep [OF Cons.prems, of w config b a m]
  have docs: "combinedDocs (fst ?p) = combinedDocs (fst ?p')" and rest: "snd ?p = snd ?p'"
    by simp_all
  from Cons.IH [OF docs, of "fst (snd ?p)"] rest
  show ?case
    by (simp add: processAll_Cons Let_def prod_eq_iff del: processAll.simps(2))
qed

lemma processAll_all_failed:
  "\<forall>a\<in>set as. isl (fst (fetchIndividualSwaggerDoc w config b (apiUrl a))) \<Longrightarrow>
   processAll w config b as st m = (st, m, map (fullUrl b) as)"
  by (induction as) (simp_all add: processApiConfig_failed)

lemma processAll_cache: "cache (fst (processAll w config b as st m)) = cache st"
  by (subst processAll_frame) simp

lemma combinedDoc_cong:
  "combinedDocs s = combinedDocs s' \<Longrightarrow> combinedDoc s m n = combinedDoc s' m n"
  by (simp add: combinedDoc_def firstDoc_def)

lemma fetchSwaggerConfig_trace:
  "snd (fetchSwaggerConfig w config b) = [b @ ''/swagger-config.json'']"
  by (simp add: fetchSwaggerConfig_def authenticatedRequest_def Let_def split: option.splits response.splits)

lemma fetchHub_ready:
  assumes "hub_ready w config u b c us"
  shows "fetchHub w config u st =
     (let q = processAll w config b us (st\<lparr>swaggerConfig := Obj c, combinedDocs := []\<rparr>) no_merged;
          doc = Obj (combinedDoc (fst q) (fst (snd q)) (length us))
      in (Inr doc,
          (fst q)\<lparr>cache := (cache st)(u \<mapsto> (doc, now_store w))\<rparr>,
          (b @ ''/swagger-config.json'') # map (fullUrl b) us))"
proof -
  let ?q = "processAll w config b us (st\<lparr>swaggerConfig := Obj c, combinedDocs := []\<rparr>) no_merged"
  have cfg: "fetchSwaggerConfig w config b = (Inr (Obj c), [b @ ''/swagger-config.json''])"
    using assms fetchSwaggerConfig_trace [of w config b]
    by (simp add: hub_ready_def prod_eq_iff)
  have q: "?q = (fst ?q, fst (snd ?q), map (fullUrl b) us)"
    by (simp add: prod_eq_iff processAll_trace)
  have "cache (fst ?q) = cache st"
    by (simp add: processAll_cache)
  with fetchHub_success [OF _ cfg _ _ q, of u] assms
  show ?thesis
    by (simp add: hub_ready_def Let_def)
qed

lemma fetchHub_not_ready:
  assumes "\<not> (\<exists>b c us. hub_ready w config u b c us)"
  shows "\<exists>e tr. \<forall>st. \<exists>st'. fetchHub w config u st = (Inl e, st', tr) \<and> cache st' = cache st"
proof (cases "URL_origin w u")
  case None
  then have "\<forall>st. fetchHub w config u st = (Inl (failedDoc InvalidURL), st, [])"
    by (simp add: fetchHub_def)
  then show ?thesis by blast
next
  case (Some b)
  obtain r tr0 where cfg: "fetchSwaggerConfig w config b = (r, tr0)"
    by (cases "fetchSwaggerConfig w config b") auto
  show ?thesis
  proof (cases r)
    case (Inl e)
    with Some cfg have "\<forall>st. fetchHub w config u st = (Inl (failedDoc e), st, tr0)"
      by (simp add: fetchHub_def)
    then show ?thesis by blast
  next
    case (Inr pc)
    show ?thesis
    proof (cases pc)
      case Null
      with Some cfg Inr
      have "\<forall>st. fetchHub w config u st
                 = (Inl (failedDoc TypeError), st\<lparr>swaggerConfig := Null\<rparr>, tr0)"
        by (simp add: fetchHub_def)
      then have "\<forall>st. \<exists>st'. fetchHub w config u st = (Inl (failedDoc TypeError), st', tr0)
                   \<and> cache st' = cache st"
        by simp
      then show ?thesis by blast
    next
      case (Obj c)
      with assms Some cfg Inr have "urls c = None \<or> urls c = Some []"
        by (cases "urls c") (auto simp: hub_ready_def)
      with Some cfg Inr Obj
      have "\<forall>st. fetchHub w config u st
                 = (Inl (failedDoc NoApiUrls), st\<lparr>swaggerConfig := Obj c\<rparr>, tr0)"
        by (auto simp add: fetchHub_def)
      then have "\<forall>st. \<exists>st'. fetchHub w config u st = (Inl (failedDoc NoApiUrls), st', tr0)
                   \<and> cache st' = cache st"
        by simp
      then show ?thesis by blast
    qed
  qed
qed

lemma fetchHub_any_cache:
  "fst (fetchHub w config u (st\<lparr>cache := x\<rparr>)) = fst (fetchHub w config u st) \<and>
   snd (snd (fetchHub w config u (st\<lparr>cache := x\<rparr>))) = snd (snd (fetchHub w config u st))"
proof (cases "\<exists>b c us. hub_ready w config u b c us")
  case True
  then obtain b c us where ready: "hub_ready w config u b c us" by blast
  let ?s = "st\<lparr>swaggerConfig := Obj c, combinedDocs := []\<rparr>"
  let ?t = "st\<lparr>cache := x\<rparr>\<lparr>swaggerConfig := Obj c, combinedDocs := []\<rparr>"
  have "combinedDocs ?t = combinedDocs ?s" by simp
  from processAll_indep [OF this, of w config b us no_merged]
  have same: "combinedDocs (fst (processAll w config b us ?t no_merged))
                = combinedDocs (fst (processAll w config b us ?s no_merged))"
    and rest: "snd (processAll w config b us ?t no_merged)
                = snd (processAll w config b us ?s no_merged)"
    by blast+
  have "combinedDoc (fst (processAll w config b us ?t no_merged))
            (fst (snd (processAll w config b us ?t no_merged))) (length us)
        = combinedDoc (fst (processAll w config b us ?s no_merged))
            (fst (snd (processAll w config b us ?s no_merged))) (length us)"
    unfolding rest by (rule combinedDoc_cong [OF same])
  then show ?thesis
    unfolding fetchHub_ready [OF ready] Let_def by simp
next
  case False
  from fetchHub_not_ready [OF this] obtain e tr
    where all: "\<forall>st. \<exists>st'. fetchHub w config u st = (Inl e, st', tr) \<and> cache st' = cache st"
    by blast
  have "fst (fetchHub w config u s) = Inl e \<and> snd (snd (fetchHub w config u s)) = tr" for s
  proof -
    from all obtain s' where "fetchHub w config u s = (Inl e, s', tr)" by blast
    then show ?thesis by simp
  qed
  then show ?thesis by simp
qed

lemma fetchHub_stored:
  assumes "fst (fetchHub w config u st) = Inr d"
  shows "cache (fst (snd (fetchHub w config u st))) = (cache st)(u \<mapsto> (d, now_store w)) \<and>
         snd (snd (fetchHub w config u st)) \<noteq> []"
proof (cases "\<exists>b c us. hub_ready w config u b c us")
  case True
  then obtain b c us where ready: "hub_ready w config u b c us" by blast
  from assms show ?thesis
    by (auto simp add: fetchHub_ready [OF ready] Let_def)
next
  case False
  from fetchHub_not_ready [OF this] obtain e st' tr
    where "fetchHub w config u st = (Inl e, st', tr)"
    by blast
  with assms show ?thesis by simp
qed

lemma processAll_append:
  "processAll w config b (xs @ ys) st m =
     (let p = processAll w config b xs st m;
          q = processAll w config b ys (fst p) (fst (snd p))
      in (fst q, fst (snd q), snd (snd p) @ snd (snd q)))"
proof (induction xs arbitrary: st m)
  case Nil
  show ?case by (simp add: Let_def)
next
  case (Cons x xs)
  show ?case
    by (simp add: processAll_Cons Cons.IH Let_def del: processAll.simps(2))
qed

lemma processAll_skip:
  assumes "isl (fst (fetchIndividualSwaggerDoc w config b (apiUrl a)))"
  shows "fst (processAll w config b (xs @ a # ys) st m) = fst (processAll w config b (xs @ ys) st m) \<and>
         fst (snd (processAll w config b (xs @ a # ys) st m))
           = fst (snd (processAll w config b (xs @ ys) st m))"
  by (simp add: processAll_append [of w config b xs] processAll_Cons
        processApiConfig_failed [OF assms] Let_def del: processAll.simps(2))

lemma combinedDoc_nothing:
  "combinedDocs s = [] \<Longrightarrow>
   combinedDoc s no_merged n =
     \<lparr>openapi = None, swagger = None,
      info = Some \<lparr>title = ''Combined API Documentation'', version = ''1.0.0'',
                   description = Some (''Combined documentation from '' @ string_of_nat n
                                        @ '' API sources'')\<rparr>,
      paths = Some Map.empty,
      components = Some \<lparr>schemas = Some Map.empty, securitySchemes = None\<rparr>,
      definitions = None, tags = Some []\<rparr>"
  by (simp add: combinedDoc_def firstDoc_def no_merged_def empty_object_def securitySchemesOf_def)

lemma mergeTagList_frame:
  "allPaths (mergeTagList ts m) = allPaths m \<and> allSchemas (mergeTagList ts m) = allSchemas m"
  by (induction ts arbitrary: m) simp_all

lemma mergeTagList_tagSet:
  "tagSet (mergeTagList ts m) = tagSet m \<union> tag_name ` set ts"
  by (induction ts arbitrary: m) auto

lemma mergeTagList_allTags:
  "allTags (mergeTagList ts m)
     = allTags m @ first_by_name (filter (\<lambda>t. tag_name t \<notin> tagSet m) ts)"
proof (induction ts arbitrary: m)
  case Nil
  show ?case by simp
next
  case (Cons t ts)
  show ?case
  proof (cases "tag_name t \<in> tagSet m")
    case True
    then show ?thesis by (simp add: Cons.IH)
  next
    case False
    have "filter (\<lambda>t'. tag_name t' \<notin> insert (tag_name t) (tagSet m)) ts
            = filter (\<lambda>t'. tag_name t' \<noteq> tag_name t) (filter (\<lambda>t'. tag_name t' \<notin> tagSet m) ts)"
      by (auto intro: filter_cong)
    with False show ?thesis by (simp add: Cons.IH)
  qed
qed

lemma first_by_name_append:
  "first_by_name (xs @ ys)
     = first_by_name xs @ first_by_name (filter (\<lambda>t. tag_name t \<notin> tag_name ` set xs) ys)"
proof (induction xs arbitrary: ys rule: first_by_name.induct)
  case 1
  show ?case by simp
next
  case (2 t ts)
  let ?keep = "\<lambda>t'. tag_name t' \<noteq> tag_name t"
  have "filter (\<lambda>u. tag_name u \<notin> tag_name ` set (filter ?keep ts)) (filter ?keep ys)
          = filter (\<lambda>u. tag_name u \<notin> tag_name ` set (t # ts)) ys"
    by (induction ys) auto
  with "2.IH" [of "filter ?keep ys"] show ?case by simp
qed

lemma first_by_name_names:
  "distinct (map tag_name (first_by_name ts)) \<and>
   set (map tag_name (first_by_name ts)) = set (map tag_name ts)"
  by (induction ts rule: first_by_name.induct) auto




lemma processApiConfig_merged:
  assumes "fst (fetchIndividualSwaggerDoc w config b (apiUrl a)) = Inr (Obj d)"
    and "paths d = Some ps"
  shows "processApiConfig w config b a st m =
           (st\<lparr>combinedDocs :=
                 map_set (apiName a) (docWithSource (Obj d) (apiName a)) (combinedDocs st)\<rparr>,
            mergeTags d (mergeSchemas d (mergePaths ps m)), [fullUrl b a])"
  using assms fetchIndividualSwaggerDoc_trace [of w config b "apiUrl a"]
  by (auto simp add: processApiConfig_def fullUrl_def Let_def split: prod.splits)

lemma restrict_no_proto: "k \<notin> dom src \<Longrightarrow> src |` (- {k}) = src"
  by (rule ext) (simp add: restrict_map_def domIff)

lemma restrict_upd_proto: "(src(k \<mapsto> v)) |` (- {k}) = src |` (- {k})"
  by (rule ext) (simp add: restrict_map_def)

lemma restrict_upd_other: "k \<noteq> k' \<Longrightarrow> (src(k \<mapsto> v)) |` (- {k'}) = (src |` (- {k'}))(k \<mapsto> v)"
  by (rule ext) (simp add: restrict_map_def)

lemma js_assign_plain: "k \<noteq> ''__proto__'' \<Longrightarrow> js_assign obj k v = obj\<lparr>own := (own obj)(k \<mapsto> v)\<rparr>"
  by (simp add: js_assign_def)

lemma js_assign_own_other:
  "k \<noteq> ''__proto__'' \<Longrightarrow> own (js_assign obj ''__proto__'' v) k = own obj k"
  by (simp add: js_assign_def split: json.splits)

lemma js_assign_dom: "dom (own obj) \<subseteq> dom (own (js_assign obj k v))"
  by (auto simp: js_assign_def split: json.splits)

lemma assign_entries_empty: "assign_entries Map.empty obj = obj"
  by (simp add: assign_entries_def)

lemma assign_entries_plain:
  "''__proto__'' \<notin> dom src \<Longrightarrow> assign_entries src obj = obj\<lparr>own := own obj ++ src\<rparr>"
  by (simp add: assign_entries_def restrict_no_proto domIff)

lemma assign_entries_own:
  assumes "k \<noteq> ''__proto__''"
  shows "own (assign_entries src obj) k = (case src k of None \<Rightarrow> own obj k | Some v \<Rightarrow> Some v)"
  using assms
  by (auto simp: assign_entries_def Let_def js_assign_own_other map_add_def restrict_map_def
        split: option.splits)

lemma assign_entries_dom: "dom (own obj) \<subseteq> dom (own (assign_entries src obj))"
proof -
  let ?obj = "obj\<lparr>own := own obj ++ (src |` (- {''__proto__''}))\<rparr>"
  have "dom (own obj) \<subseteq> dom (own ?obj)" by auto
  moreover have "dom (own ?obj) \<subseteq> dom (own (js_assign ?obj ''__proto__'' v))" for v
    by (rule js_assign_dom)
  ultimately show ?thesis
    by (auto simp: assign_entries_def Let_def split: option.splits)
qed

lemma js_assign_proto_add:
  assumes "src ''__proto__'' = None"
  shows "js_assign (obj\<lparr>own := own obj ++ src\<rparr>) ''__proto__'' v
           = (js_assign obj ''__proto__'' v)\<lparr>own := own (js_assign obj ''__proto__'' v) ++ src\<rparr>"
proof -
  from assms have "''__proto__'' \<notin> dom src" by (simp add: domIff)
  then have "(own obj ++ src)(''__proto__'' \<mapsto> v) = (own obj)(''__proto__'' \<mapsto> v) ++ src"
    by (simp add: map_add_upd_left)
  with \<open>''__proto__'' \<notin> dom src\<close> show ?thesis
    by (auto simp: js_assign_def split: json.splits)
qed

text \<open>The loop over the entries of a source object, in any order, is \<open>assign_entries\<close>.\<close>

lemma assign_entries_loop:
  "distinct (map fst kvs) \<Longrightarrow>
   foldl (\<lambda>obj (k, v). js_assign obj k v) obj kvs = assign_entries (map_of kvs) obj"
proof (induction kvs arbitrary: obj)
  case Nil
  show ?case by (simp add: assign_entries_empty)
next
  case (Cons kv kvs)
  obtain k v where kv: "kv = (k, v)" by (cases kv)
  from Cons.prems kv have fresh: "map_of kvs k = None" and dist: "distinct (map fst kvs)"
    by (auto simp: map_of_eq_None_iff)
  have "foldl (\<lambda>obj (k, v). js_assign obj k v) obj ((k, v) # kvs)
          = assign_entries (map_of kvs) (js_assign obj k v)"
    using Cons.IH [OF dist] by simp
  also have "\<dots> = assign_entries ((map_of kvs)(k \<mapsto> v)) obj"
  proof (cases "k = ''__proto__''")
    case True
    with fresh have none: "map_of kvs ''__proto__'' = None" by simp
    then have "''__proto__'' \<notin> dom (map_of kvs)" by (simp add: domIff)
    then have "assign_entries (map_of kvs) (js_assign obj ''__proto__'' v)
                 = (js_assign obj ''__proto__'' v)
                     \<lparr>own := own (js_assign obj ''__proto__'' v) ++ map_of kvs\<rparr>"
      by (rule assign_entries_plain)
    also have "\<dots> = js_assign (obj\<lparr>own := own obj ++ map_of kvs\<rparr>) ''__proto__'' v"
      by (rule js_assign_proto_add [where src = "map_of kvs", OF none, symmetric])
    also have "\<dots> = assign_entries ((map_of kvs)(''__proto__'' \<mapsto> v)) obj"
      using \<open>''__proto__'' \<notin> dom (map_of kvs)\<close>
      by (simp add: assign_entries_def restrict_upd_proto restrict_no_proto)
    finally show ?thesis using True by simp
  next
    case False
    from fresh have "k \<notin> dom (map_of kvs |` (- {''__proto__''}))"
      by (simp add: domIff restrict_map_def)
    then have "(own obj)(k \<mapsto> v) ++ (map_of kvs |` (- {''__proto__''}))
                 = own obj ++ (map_of kvs |` (- {''__proto__''}))(k \<mapsto> v)"
      by (simp add: map_add_upd_left)
    with False show ?thesis
      by (simp add: assign_entries_def js_assign_plain restrict_upd_other)
  qed
  also have "\<dots> = assign_entries (map_of ((k, v) # kvs)) obj"
    by simp
  finally show ?case unfolding kv .
qed

lemma merged_tags:
  "allTags (mergeTags d (mergeSchemas d (mergePaths ps m)))
     = allTags m @ first_by_name (filter (\<lambda>t. tag_name t \<notin> tagSet m) (tags_of d)) \<and>
   tagSet (mergeTags d (mergeSchemas d (mergePaths ps m)))
     = tagSet m \<union> tag_name ` set (tags_of d)"
  by (simp add: mergeTags_def mergeSchemas_def mergePaths_def tags_of_def
        mergeTagList_allTags mergeTagList_tagSet split: option.splits)

lemma merged_objects:
  "allPaths (mergeTags d (mergeSchemas d (mergePaths ps m))) = assign_entries ps (allPaths m) \<and>
   allSchemas (mergeTags d (mergeSchemas d (mergePaths ps m)))
     = assign_entries (schemas_of d) (allSchemas m)"
  by (simp add: mergeTags_def mergeSchemas_def mergePaths_def schemas_of_def
        mergeTagList_frame assign_entries_empty split: option.splits)

lemma trim_empty_iff: "trim s = [] \<longleftrightarrow> (\<forall>c\<in>set s. isWhiteSpace c)"
proof -
  have "trim s = [] \<longleftrightarrow> (\<forall>c\<in>set (dropWhile isWhiteSpace s). isWhiteSpace c)"
    by (simp add: trim_def)
  also have "\<dots> \<longleftrightarrow> dropWhile isWhiteSpace s = []"
  proof
    assume all: "\<forall>c\<in>set (dropWhile isWhiteSpace s). isWhiteSpace c"
    show "dropWhile isWhiteSpace s = []"
    proof (rule ccontr)
      assume "dropWhile isWhiteSpace s \<noteq> []"
      then have "\<not> isWhiteSpace (hd (dropWhile isWhiteSpace s))"
        and "hd (dropWhile isWhiteSpace s) \<in> set (dropWhile isWhiteSpace s)"
        by (simp_all add: hd_dropWhile)
      with all show False by blast
    qed
  next
    assume "dropWhile isWhiteSpace s = []"
    then show "\<forall>c\<in>set (dropWhile isWhiteSpace s). isWhiteSpace c"
      by (auto dest: set_dropWhileD)
  qed
  also have "\<dots> \<longleftrightarrow> (\<forall>c\<in>set s. isWhiteSpace c)"
    by simp
  finally show ?thesis .
qed

lemma trim_nonblank: "\<not> isWhiteSpace c \<Longrightarrow> trim (c # cs) \<noteq> []"
  by (auto simp: trim_empty_iff)

lemma processAll_three:
  assumes "fst (fetchIndividualSwaggerDoc w config b (apiUrl A)) = Inr (Obj dA)"
    and "paths dA = Some pA"
    and "isl (fst (fetchIndividualSwaggerDoc w config b (apiUrl B)))"
    and "fst (fetchIndividualSwaggerDoc w config b (apiUrl C)) = Inr (Obj dC)"
    and "paths dC = Some pC"
  shows "processAll w config b [A, B, C] s m =
           (s\<lparr>combinedDocs :=
                map_set (apiName C) (docWithSource (Obj dC) (apiName C))
                  (map_set (apiName A) (docWithSource (Obj dA) (apiName A)) (combinedDocs s))\<rparr>,
            mergeTags dC (mergeSchemas dC (mergePaths pC
              (mergeTags dA (mergeSchemas dA (mergePaths pA m))))),
            map (fullUrl b) [A, B, C])"
  by (simp add: processApiConfig_merged [OF assms(1,2)] processApiConfig_failed [OF assms(3)]
        processApiConfig_merged [OF assms(4,5)])

lemma hub_run:
  assumes "\<not> isDirectUrl u" and "\<not> fresh_entry w config st u"
    and "hub_ready w config u b c us"
    and "processAll w config b us (st\<lparr>swaggerConfig := Obj c, combinedDocs := []\<rparr>) no_merged
           = (s, m, tr)"
  shows "fetchSwaggerDoc w config u st =
           (Inr (Obj (combinedDoc s m (length us))),
            s\<lparr>cache := (cache st)(u \<mapsto> (Obj (combinedDoc s m (length us)), now_store w))\<rparr>,
            (b @ ''/swagger-config.json'') # map (fullUrl b) us)"
  using assms(1)
  by (simp only: fetchSwaggerDoc_miss [OF assms(2)] fetchHub_ready [OF assms(3)] assms(4) Let_def
        fst_conv snd_conv if_False)

lemma fetchDirect_parsed:
  assumes "axios_get w u (request_config w config) = Some (Text body)"
    and "YAML_parse w body = Some v"
  shows "fetchDirect w config u st
           = (Inr v, st\<lparr>cache := (cache st)(u \<mapsto> (v, now_store w))\<rparr>, [u])"
  using assms by (simp add: fetchDirect_def authenticatedRequest_def)

lemma fetchHub_requests_registry:
  assumes "URL_origin w u = Some b"
  shows "\<exists>tr. snd (snd (fetchHub w config u st)) = (b @ ''/swagger-config.json'') # tr"
proof -
  obtain r where cfg: "fetchSwaggerConfig w config b = (r, [b @ ''/swagger-config.json''])"
    using fetchSwaggerConfig_trace [of w config b]
    by (cases "fetchSwaggerConfig w config b") auto
  show ?thesis
    using assms
    by (auto simp: fetchHub_def cfg Let_def simp del: processAll.simps
          split: sum.splits nullable.splits option.splits list.splits prod.splits)
qed

text \<open>What the loop retains and merges, for a registry of any length.\<close>

lemma merged_sources_Cons:
  "merged_sources w config b (a # us) =
     (case merged_source w config b a of
        None \<Rightarrow> merged_sources w config b us
      | Some d \<Rightarrow> d # merged_sources w config b us)"
  by (simp add: merged_sources_def map_filter_simps split: option.splits)

lemma merged_sources_Nil: "merged_sources w config b [] = []"
  by (simp add: merged_sources_def map_filter_simps)

lemma processApiConfig_merged_source:
  "fst (snd (processApiConfig w config b a st m)) =
     (case merged_source w config b a of
        None \<Rightarrow> m
      | Some d \<Rightarrow> mergeTags d (mergeSchemas d (mergePaths (paths_of d) m)))"
proof -
  obtain r tr where f: "fetchIndividualSwaggerDoc w config b (apiUrl a) = (r, tr)"
    by (cases "fetchIndividualSwaggerDoc w config b (apiUrl a)")
  show ?thesis
    by (auto simp: processApiConfig_def merged_source_def paths_of_def f Let_def
          split: sum.splits nullable.splits option.splits)
qed

lemma processApiConfig_docs:
  "combinedDocs (fst (processApiConfig w config b a st m)) =
     (case fst (fetchIndividualSwaggerDoc w config b (apiUrl a)) of
        Inl e \<Rightarrow> combinedDocs st
      | Inr doc \<Rightarrow> map_set (apiName a) (docWithSource doc (apiName a)) (combinedDocs st))"
proof -
  obtain r tr where f: "fetchIndividualSwaggerDoc w config b (apiUrl a) = (r, tr)"
    by (cases "fetchIndividualSwaggerDoc w config b (apiUrl a)")
  show ?thesis
    by (auto simp: processApiConfig_def f Let_def
          split: sum.splits nullable.splits option.splits)
qed

lemma map_of_map_set: "map_of (map_set k v kvs) = (map_of kvs)(k \<mapsto> v)"
  by (induction kvs) (auto simp: fun_eq_iff)

lemma processAll_step:
  "fst (processAll w config b (a # us) st m)
     = fst (processAll w config b us (fst (processApiConfig w config b a st m))
              (fst (snd (processApiConfig w config b a st m)))) \<and>
   fst (snd (processAll w config b (a # us) st m))
     = fst (snd (processAll w config b us (fst (processApiConfig w config b a st m))
              (fst (snd (processApiConfig w config b a st m)))))"
  by (simp add: processAll_Cons Let_def del: processAll.simps(2))

lemma processAll_docs_other:
  "n \<notin> apiName ` set us \<Longrightarrow>
   map_of (combinedDocs (fst (processAll w config b us st m))) n = map_of (combinedDocs st) n"
proof (induction us arbitrary: st m)
  case Nil
  show ?case by simp
next
  case (Cons a us)
  from Cons.prems have "n \<noteq> apiName a" and rest: "n \<notin> apiName ` set us" by auto
  then have "map_of (combinedDocs (fst (processApiConfig w config b a st m))) n
               = map_of (combinedDocs st) n"
    by (simp add: processApiConfig_docs map_of_map_set split: sum.splits)
  with Cons.IH [OF rest] show ?case
    by (simp add: processAll_step del: processAll.simps(2))
qed

lemma processAll_retained:
  assumes "distinct (map apiName us)" and "a \<in> set us"
    and "fst (fetchIndividualSwaggerDoc w config b (apiUrl a)) = Inr doc"
  shows "map_of (combinedDocs (fst (processAll w config b us st m))) (apiName a)
           = Some (docWithSource doc (apiName a))"
  using assms(1,2)
proof (induction us arbitrary: st m)
  case Nil
  then show ?case by simp
next
  case (Cons x us)
  show ?case
  proof (cases "a = x")
    case True
    with Cons.prems have "apiName a \<notin> apiName ` set us" by auto
    from processAll_docs_other [OF this]
    have "map_of (combinedDocs (fst (processAll w config b (x # us) st m))) (apiName a)
            = map_of (combinedDocs (fst (processApiConfig w config b x st m))) (apiName a)"
      by (simp add: processAll_step del: processAll.simps(2))
    with True assms(3) show ?thesis
      by (simp add: processApiConfig_docs map_of_map_set)
  next
    case False
    with Cons.prems have "distinct (map apiName us)" and "a \<in> set us" by auto
    from Cons.IH [OF this] show ?thesis
      by (simp add: processAll_step del: processAll.simps(2))
  qed
qed

lemma first_by_name_filter_append:
  "first_by_name (filter (\<lambda>t. tag_name t \<notin> S) (xs @ ys))
     = first_by_name (filter (\<lambda>t. tag_name t \<notin> S) xs)
       @ first_by_name (filter (\<lambda>t. tag_name t \<notin> S \<union> tag_name ` set xs) ys)"
proof -
  have "filter (\<lambda>t. tag_name t \<notin> tag_name ` set (filter (\<lambda>t. tag_name t \<notin> S) xs))
          (filter (\<lambda>t. tag_name t \<notin> S) ys)
        = filter (\<lambda>t. tag_name t \<notin> S \<union> tag_name ` set xs) ys"
    by (induction ys) auto
  then show ?thesis
    by (simp add: first_by_name_append)
qed

lemma processAll_tags:
  "allTags (fst (snd (processAll w config b us st m)))
     = allTags m @ first_by_name (filter (\<lambda>t. tag_name t \<notin> tagSet m)
                     (concat (map tags_of (merged_sources w config b us)))) \<and>
   tagSet (fst (snd (processAll w config b us st m)))
     = tagSet m \<union> tag_name ` set (concat (map tags_of (merged_sources w config b us)))"
proof (induction us arbitrary: st m)
  case Nil
  show ?case by (simp add: merged_sources_Nil)
next
  case (Cons a us)
  let ?m1 = "fst (snd (processApiConfig w config b a st m))"
  note IH = Cons.IH [of "fst (processApiConfig w config b a st m)" ?m1]
  show ?case
  proof (cases "merged_source w config b a")
    case None
    with IH show ?thesis
      by (simp add: processAll_step processApiConfig_merged_source merged_sources_Cons
            del: processAll.simps(2))
  next
    case (Some d)
    then have "allTags ?m1
                 = allTags m @ first_by_name (filter (\<lambda>t. tag_name t \<notin> tagSet m) (tags_of d))"
      and "tagSet ?m1 = tagSet m \<union> tag_name ` set (tags_of d)"
      by (simp_all add: processApiConfig_merged_source merged_tags)
    with IH Some show ?thesis
      by (simp add: processAll_step merged_sources_Cons first_by_name_filter_append Un_assoc
            image_Un del: processAll.simps(2) filter_append)
  qed
qed

section \<open>The accumulators after the loop, for any keys\<close>

lemma processAll_objects:
  "allPaths (fst (snd (processAll w config b us st m)))
     = foldl (\<lambda>obj d. assign_entries (paths_of d) obj) (allPaths m)
         (merged_sources w config b us) \<and>
   allSchemas (fst (snd (processAll w config b us st m)))
     = foldl (\<lambda>obj d. assign_entries (schemas_of d) obj) (allSchemas m)
         (merged_sources w config b us)"
proof (induction us arbitrary: st m)
  case Nil
  show ?case by (simp add: merged_sources_Nil)
next
  case (Cons a us)
  note IH = Cons.IH [of "fst (processApiConfig w config b a st m)"
                        "fst (snd (processApiConfig w config b a st m))"]
  show ?case
  proof (cases "merged_source w config b a")
    case None
    with IH show ?thesis
      by (simp add: processAll_step processApiConfig_merged_source merged_sources_Cons
            del: processAll.simps(2))
  next
    case (Some d)
    with IH show ?thesis
      by (simp add: processAll_step processApiConfig_merged_source merged_sources_Cons
            merged_objects del: processAll.simps(2))
  qed
qed

lemma fold_assign_dom:
  "dom (own obj) \<subseteq> dom (own (foldl (\<lambda>obj d. assign_entries (f d) obj) obj ds))"
proof (induction ds arbitrary: obj)
  case Nil
  show ?case by simp
next
  case (Cons d ds)
  have "dom (own obj) \<subseteq> dom (own (assign_entries (f d) obj))"
    by (rule assign_entries_dom)
  also note Cons.IH [of "assign_entries (f d) obj"]
  finally show ?case by simp
qed

lemma fold_assign_member:
  assumes "d \<in> set ds" and "k \<in> dom (f d)" and "k \<noteq> ''__proto__''"
  shows "k \<in> dom (own (foldl (\<lambda>obj d. assign_entries (f d) obj) obj ds))"
  using assms(1)
proof (induction ds arbitrary: obj)
  case Nil
  then show ?case by simp
next
  case (Cons x ds)
  show ?case
  proof (cases "d = x")
    case True
    from assms(2,3) have "k \<in> dom (own (assign_entries (f d) obj))"
      by (auto simp: assign_entries_own domIff split: option.splits)
    with fold_assign_dom [of "assign_entries (f d) obj" f ds] True show ?thesis
      by auto
  next
    case False
    with Cons.prems have "d \<in> set ds" by simp
    from Cons.IH [OF this] show ?thesis by simp
  qed
qed

lemma fold_assign_plain:
  assumes "\<forall>d\<in>set ds. ''__proto__'' \<notin> dom (f d)"
  shows "foldl (\<lambda>obj d. assign_entries (f d) obj) obj ds
           = obj\<lparr>own := foldl (\<lambda>acc d. acc ++ f d) (own obj) ds\<rparr>"
  using assms
proof (induction ds arbitrary: obj)
  case Nil
  show ?case by simp
next
  case (Cons d ds)
  from Cons.prems have d: "''__proto__'' \<notin> dom (f d)" and rest: "\<forall>d\<in>set ds. ''__proto__'' \<notin> dom (f d)"
    by simp_all
  show ?case
    by (simp add: assign_entries_plain [OF d] Cons.IH [OF rest])
qed

lemma merged_sources_member:
  "a \<in> set us \<Longrightarrow> merged_source w config b a = Some d \<Longrightarrow> d \<in> set (merged_sources w config b us)"
  by (induction us) (auto simp: merged_sources_Cons split: option.splits)







lemma combinedDoc_fields:
  "paths (combinedDoc s m n) = Some (own (allPaths m)) \<and>
   componentsSchemas (combinedDoc s m n) = Some (own (allSchemas m)) \<and>
   definitions (combinedDoc s m n) = None \<and>
   tags (combinedDoc s m n) = Some (allTags m) \<and>
   openapi (combinedDoc s m n) = (case firstDoc s of None \<Rightarrow> None | Some d \<Rightarrow> openapi d) \<and>
   swagger (combinedDoc s m n) = (case firstDoc s of None \<Rightarrow> None | Some d \<Rightarrow> swagger d) \<and>
   security_of (combinedDoc s m n) = securitySchemesOf (firstDoc s)"
  by (simp add: combinedDoc_def componentsSchemas_def security_of_def)

lemma js_assign_dom_upper: "dom (own (js_assign obj k v)) \<subseteq> insert k (dom (own obj))"
  by (auto simp: js_assign_def split: json.splits if_splits)

lemma assign_entries_dom_upper:
  "dom (own (assign_entries src obj)) \<subseteq> dom (own obj) \<union> dom src"
proof -
  let ?obj = "obj\<lparr>own := own obj ++ (src |` (- {''__proto__''}))\<rparr>"
  have base: "dom (own ?obj) \<subseteq> dom (own obj) \<union> dom src"
    by (auto simp: restrict_map_def split: if_splits)
  show ?thesis
  proof (cases "src ''__proto__''")
    case None
    with base show ?thesis
      by (simp add: assign_entries_def)
  next
    case (Some v)
    then have "''__proto__'' \<in> dom src" by auto
    with base js_assign_dom_upper [of ?obj "''__proto__''" v] Some show ?thesis
      by (auto simp: assign_entries_def Let_def)
  qed
qed

lemma fold_assign_dom_upper:
  "dom (own (foldl (\<lambda>obj d. assign_entries (f d) obj) obj ds))
     \<subseteq> dom (own obj) \<union> (\<Union>d\<in>set ds. dom (f d))"
proof (induction ds arbitrary: obj)
  case Nil
  show ?case by simp
next
  case (Cons d ds)
  from Cons.IH [of "assign_entries (f d) obj"] assign_entries_dom_upper [of "f d" obj]
  show ?case by auto
qed

section \<open>Evaluating the concrete worlds\<close>

lemma registry_only_ready:
  "hub_ready registry_only no_auth hub_url hub_base registry (the (urls registry))"
  by (simp add: hub_ready_def registry_only_def table_world_def https_origin_def hub_url_def
        hub_base_def fetchSwaggerConfig_def authenticatedRequest_def registry_url_def
        registry_def)

lemma registry_only_all_fail:
  "\<forall>a\<in>set (the (urls registry)).
      isl (fst (fetchIndividualSwaggerDoc registry_only no_auth hub_base (apiUrl a)))"
  by (simp add: registry_def fetchIndividualSwaggerDoc_def authenticatedRequest_def
        registry_only_def table_world_def hub_base_def registry_url_def Let_def)

lemma brace_not_space: "\<not> isWhiteSpace CHR ''{''"
  by (simp add: isWhiteSpace_def)

lemma texts_differ: "alpha_text \<noteq> gamma_text"
  by (simp add: alpha_text_def gamma_text_def)

lemma texts_nonblank: "trim alpha_text \<noteq> [] \<and> trim gamma_text \<noteq> []"
  by (simp add: alpha_text_def gamma_text_def trim_nonblank brace_not_space)

lemma hub_individual:
  "fst (fetchIndividualSwaggerDoc
          (table_world ((registry_url, t) # hub_net) hub_docs r t0 t1) no_auth hub_base ''a.yaml'')
     = Inr (Obj alpha_doc) \<and>
   isl (fst (fetchIndividualSwaggerDoc
          (table_world ((registry_url, t) # hub_net) hub_docs r t0 t1) no_auth hub_base ''b.yaml'')) \<and>
   fst (fetchIndividualSwaggerDoc
          (table_world ((registry_url, t) # hub_net) hub_docs r t0 t1) no_auth hub_base ''c.yaml'')
     = Inr (Obj gamma_doc)"
  using texts_differ texts_nonblank
  by (simp add: fetchIndividualSwaggerDoc_def authenticatedRequest_def table_world_def
        hub_net_def hub_docs_def hub_base_def registry_url_def Let_def)

lemma hub_world_ready:
  "hub_ready hub_world no_auth hub_url hub_base registry
     [\<lparr>apiUrl = ''a.yaml'', apiName = ''alpha''\<rparr>,
      \<lparr>apiUrl = ''b.yaml'', apiName = ''beta''\<rparr>,
      \<lparr>apiUrl = ''c.yaml'', apiName = ''gamma''\<rparr>]"
  by (simp add: hub_ready_def hub_world_def table_world_def https_origin_def hub_url_def
        hub_base_def fetchSwaggerConfig_def authenticatedRequest_def registry_url_def
        registry_def)

lemma hub_url_not_direct: "\<not> isDirectUrl hub_url"
  by (simp add: isDirectUrl_def endsWith_def hub_url_def)

lemma new_fetcher_miss: "\<not> fresh_entry w config new_fetcher u"
  by (simp add: fresh_entry_def new_fetcher_def)

lemma legacy_world_ready:
  "hub_ready legacy_world no_auth hub_url hub_base legacy_registry
     [\<lparr>apiUrl = ''legacy.json'', apiName = ''legacy''\<rparr>]"
  by (simp add: hub_ready_def legacy_world_def table_world_def https_origin_def hub_url_def
        hub_base_def fetchSwaggerConfig_def authenticatedRequest_def registry_url_def
        legacy_registry_def)

lemma legacy_individual:
  "fst (fetchIndividualSwaggerDoc legacy_world no_auth hub_base ''legacy.json'')
     = Inr (Obj legacy_both)"
  by (simp add: fetchIndividualSwaggerDoc_def authenticatedRequest_def legacy_world_def
        table_world_def hub_base_def registry_url_def Let_def legacy_text_def trim_nonblank
        brace_not_space)




lemma after_hub_eval:
  "cache after_hub direct_url = None \<and>
   swaggerConfig after_hub = Obj registry \<and>
   combinedDocs after_hub
     = [(''alpha'', docWithSource (Obj alpha_doc) ''alpha''),
        (''gamma'', docWithSource (Obj gamma_doc) ''gamma'')]"
proof -
  note ind = hub_individual [of registry_text "[(registry_text, Obj registry)]" 2000 2005,
      folded hub_world_def]
  from ind have a: "fst (fetchIndividualSwaggerDoc hub_world no_auth hub_base
                      (apiUrl \<lparr>apiUrl = ''a.yaml'', apiName = ''alpha''\<rparr>)) = Inr (Obj alpha_doc)"
    and b: "isl (fst (fetchIndividualSwaggerDoc hub_world no_auth hub_base
                      (apiUrl \<lparr>apiUrl = ''b.yaml'', apiName = ''beta''\<rparr>)))"
    and c: "fst (fetchIndividualSwaggerDoc hub_world no_auth hub_base
                      (apiUrl \<lparr>apiUrl = ''c.yaml'', apiName = ''gamma''\<rparr>)) = Inr (Obj gamma_doc)"
    by simp_all
  have pa: "paths alpha_doc = Some [''/a'' \<mapsto> JStr ''alpha'', ''/shared'' \<mapsto> JStr ''alpha'']"
    and pc: "paths gamma_doc = Some [''/c'' \<mapsto> JStr ''gamma'', ''/shared'' \<mapsto> JStr ''gamma'']"
    by (simp_all add: alpha_doc_def gamma_doc_def)
  have "direct_url \<noteq> hub_url"
    by (simp add: direct_url_def hub_url_def)
  then show ?thesis
    unfolding after_hub_def
      hub_run [OF hub_url_not_direct new_fetcher_miss hub_world_ready
        processAll_three [OF a pa b c pc]]
    by (simp add: new_fetcher_def)
qed

lemma late_hub_world_ready:
  "hub_ready late_hub_world no_auth hub_url hub_base registry
     [\<lparr>apiUrl = ''a.yaml'', apiName = ''alpha''\<rparr>,
      \<lparr>apiUrl = ''b.yaml'', apiName = ''beta''\<rparr>,
      \<lparr>apiUrl = ''c.yaml'', apiName = ''gamma''\<rparr>]"
  by (simp add: hub_ready_def late_hub_world_def table_world_def https_origin_def hub_url_def
        hub_base_def fetchSwaggerConfig_def authenticatedRequest_def registry_url_def
        registry_def)

section \<open>Properties of applyAuth\<close>

lemma applyAuth_cases:
  assumes "\<not> activating_credentials config"
  shows "applyAuth base64 config rc = rc \<or>
         applyAuth base64 config rc = rc\<lparr>headers := Some (header_entries rc)\<rparr>"
  using assms
  by (cases "auth_type (auth config)")
     (auto simp: applyAuth_def activating_credentials_def header_entries_def Let_def)

lemma empty_key_inactive:
  "auth_type (auth config) = ApiKey \<Longrightarrow> cred (auth config) apiKey = Some [] \<Longrightarrow>
   \<not> activating_credentials config"
  by (simp add: activating_credentials_def truthy_def)

text \<open>
  C9. With auth type apiKey and the empty string as key, \<open>applyAuth\<close> leaves the entries
  of the request's header map as they were. More generally, whenever the credential
  fields that would activate the configured branch are missing or empty, \<open>applyAuth\<close>
  sets no header: the header entries are unchanged, and the request it returns differs
  from the one it was given in nothing but the \<open>headers\<close> property (where a request
  that had no header map now has an empty one). \<open>applyAuth\<close> is a total function: it has no
  failing branch.
\<close>

theorem applyAuth_missing_credentials:
  "(auth_type (auth config) = ApiKey \<and> cred (auth config) apiKey = Some [] \<longrightarrow>
      header_entries (applyAuth base64 config rc) = header_entries rc) \<and>
   (\<not> activating_credentials config \<longrightarrow>
      header_entries (applyAuth base64 config rc) = header_entries rc \<and>
      applyAuth base64 config rc = rc\<lparr>headers := headers (applyAuth base64 config rc)\<rparr>)"
proof -
  have general: "header_entries (applyAuth base64 config rc) = header_entries rc \<and>
      applyAuth base64 config rc = rc\<lparr>headers := headers (applyAuth base64 config rc)\<rparr>"
    if "\<not> activating_credentials config"
    using applyAuth_cases [OF that, of base64 rc]
    by (auto simp: header_entries_def)
  then show ?thesis
    using empty_key_inactive by blast
qed

theorem applyAuth_missing_credentials_witness:
  "auth_type (auth empty_key_config) = ApiKey \<and>
   cred (auth empty_key_config) apiKey = Some [] \<and>
   \<not> activating_credentials empty_key_config \<and>
   header_entries (applyAuth (\<lambda>s. s) empty_key_config accept_request)
     = [''Accept'' \<mapsto> ''text/plain''] \<and>
   applyAuth (\<lambda>s. s) empty_key_config accept_request = accept_request"
  using applyAuth_missing_credentials [of empty_key_config "\<lambda>s. s" accept_request]
  by (simp add: empty_key_config_def accept_request_def cred_def activating_credentials_def
        truthy_def header_entries_def applyAuth_def)

section \<open>Properties of getSchemas\<close>

text \<open>
  C7. \<open>getSchemas\<close> returns the \<open>components.schemas\<close> map of a document whose \<open>openapi\<close>
  field is set (present and not the empty string, which is what the code's test accepts)
  and the \<open>definitions\<close> map of every other document, whatever the other map holds; when
  the selected map is absent the result is the empty mapping. \<open>getSchemas\<close> is total.
\<close>

theorem getSchemas_version_decides:
  "(\<forall>c m. truthy (openapi d) \<and> components d = Some c \<and> schemas c = Some m \<longrightarrow> getSchemas d = m) \<and>
   (\<forall>m. \<not> truthy (openapi d) \<and> definitions d = Some m \<longrightarrow> getSchemas d = m) \<and>
   (truthy (openapi d) \<and> components d = None \<longrightarrow> getSchemas d = Map.empty) \<and>
   (\<forall>c. truthy (openapi d) \<and> components d = Some c \<and> schemas c = None \<longrightarrow> getSchemas d = Map.empty) \<and>
   (\<not> truthy (openapi d) \<and> definitions d = None \<longrightarrow> getSchemas d = Map.empty)"
  by (simp add: getSchemas_def)

theorem getSchemas_version_decides_witness:
  "truthy (openapi modern_both) \<and> \<not> truthy (openapi legacy_both) \<and>
   definitions modern_both = Some [''Old'' \<mapsto> JStr ''legacy''] \<and>
   getSchemas modern_both = [''Pet'' \<mapsto> JStr ''modern''] \<and>
   components legacy_both
     = Some \<lparr>schemas = Some [''Pet'' \<mapsto> JStr ''modern''], securitySchemes = None\<rparr> \<and>
   getSchemas legacy_both = [''Old'' \<mapsto> JStr ''legacy'']"
  using getSchemas_version_decides [of modern_both] getSchemas_version_decides [of legacy_both]
  by (simp add: modern_both_def legacy_both_def truthy_def)

section \<open>Properties of fetchSwaggerDoc: the cache\<close>

text \<open>
  C10. When \<open>fetchSwaggerDoc\<close> throws, whatever the reason (the direct document could
  not be fetched or parsed, the URL has no origin, the registry could not be fetched or
  parsed, or it lists no entry), the cache after the call is the cache before the call:
  no entry is inserted, removed or modified, the one for the requested URL included.
\<close>

theorem failed_fetch_keeps_cache:
  "fst (fetchSwaggerDoc w config u st) = Inl e \<Longrightarrow>
   cache (fst (snd (fetchSwaggerDoc w config u st))) = cache st"
proof -
  assume failed: "fst (fetchSwaggerDoc w config u st) = Inl e"
  show ?thesis
  proof (cases "fresh_entry w config st u")
    case True
    with failed show ?thesis
      by (auto simp: fetchSwaggerDoc_def fresh_entry_def split: option.splits response.splits)
  next
    case False
    show ?thesis
    proof (cases "isDirectUrl u")
      case True
      with failed False fetchDirect_cases [of w config u st] show ?thesis
        by (auto simp: fetchSwaggerDoc_miss)
    next
      case hub: False
      with failed False fetchHub_cases [of w config u st] show ?thesis
        by (auto simp: fetchSwaggerDoc_miss)
    qed
  qed
qed

theorem failed_fetch_keeps_cache_witness:
  "fst (fetchSwaggerDoc (offline 400000) no_auth direct_url cached_fetcher)
     = Inl (failedDoc (failedDoc (RequestFailed direct_url))) \<and>
   cache (fst (snd (fetchSwaggerDoc (offline 400000) no_auth direct_url cached_fetcher)))
     direct_url = Some (Obj legacy_both, 1000)"
  using failed_fetch_keeps_cache [of "offline 400000" no_auth direct_url cached_fetcher
          "failedDoc (failedDoc (RequestFailed direct_url))"]
  by (simp add: fetchSwaggerDoc_def fetchDirect_def authenticatedRequest_def offline_def
        table_world_def no_auth_def cached_fetcher_def new_fetcher_def isDirectUrl_def
        endsWith_def direct_url_def)

text \<open>
  C5. For a URL that ends in \<open>.json\<close>, \<open>.yaml\<close> or \<open>.yml\<close> and has no fresh cache entry,
  \<open>fetchSwaggerDoc\<close> issues exactly one request, for that URL itself. It neither derives
  the origin nor parses a registry: replacing the URL parser and the registry parser by
  any others changes nothing in the outcome.
\<close>

theorem direct_url_one_request:
  assumes "endsWith u ''.json'' \<or> endsWith u ''.yaml'' \<or> endsWith u ''.yml''"
    and "\<not> fresh_entry w config st u"
  shows "snd (snd (fetchSwaggerDoc w config u st)) = [u] \<and>
         fetchSwaggerDoc (w\<lparr>URL_origin := f, JSON_parse_config := g\<rparr>) config u st
           = fetchSwaggerDoc w config u st"
proof -
  from assms(1) have direct: "isDirectUrl u" by (simp add: isDirectUrl_def)
  let ?w = "w\<lparr>URL_origin := f, JSON_parse_config := g\<rparr>"
  from assms(2) have "\<not> fresh_entry ?w config st u"
    by (simp add: fresh_entry_def split: option.splits prod.splits)
  moreover have "fetchDirect ?w config u st = fetchDirect w config u st"
    by (simp add: fetchDirect_def authenticatedRequest_def request_config_def Let_def
          split: option.splits response.splits)
  ultimately show ?thesis
    using assms(2) direct fetchDirect_cases [of w config u st]
    by (auto simp: fetchSwaggerDoc_miss)
qed

theorem direct_url_one_request_witness:
  "endsWith direct_url ''.yaml'' \<and>
   \<not> fresh_entry (petstore_world 400000) no_auth cached_fetcher direct_url \<and>
   fst (fetchSwaggerDoc (petstore_world 400000) no_auth direct_url cached_fetcher)
     = Inr (Obj petstore) \<and>
   snd (snd (fetchSwaggerDoc (petstore_world 400000) no_auth direct_url cached_fetcher))
     = [direct_url]"
  using direct_url_one_request [of direct_url "petstore_world 400000" no_auth cached_fetcher]
  by (simp add: fetchSwaggerDoc_def fetchDirect_def authenticatedRequest_def petstore_world_def
        table_world_def no_auth_def cached_fetcher_def new_fetcher_def fresh_entry_def
        isDirectUrl_def endsWith_def direct_url_def)

text \<open>
  C4. While the cache holds an entry for the URL and the time elapsed since its time stamp
  is below \<open>cacheTTL\<close>, \<open>fetchSwaggerDoc\<close> returns the cached document, changes nothing
  and issues no request. Once the entry has expired the call behaves as a first fetch
  with an empty cache would: same outcome, same requests; and when it returns a document
  it has issued at least one request and has replaced the entry for the URL by that
  document and the new time stamp, leaving every other entry as it was. In particular,
  with an expired entry: for a direct URL the document is requested again, and whatever
  the parser makes of the answer replaces the entry; for a hub URL the registry is
  requested again, and once it is obtained every document it lists is requested again,
  the loop runs from a cleared set of retained documents and empty accumulators, and
  the composite it yields replaces the entry under the new time stamp.
\<close>

theorem cache_within_and_after_ttl:
  assumes "cache st u = Some (d, ts)"
  shows "(now_lookup w - ts < cacheTTL config \<longrightarrow>
            fetchSwaggerDoc w config u st = (Inr d, st, [])) \<and>
         (\<not> now_lookup w - ts < cacheTTL config \<longrightarrow>
            fst (fetchSwaggerDoc w config u st)
              = fst (fetchSwaggerDoc w config u (st\<lparr>cache := Map.empty\<rparr>)) \<and>
            snd (snd (fetchSwaggerDoc w config u st))
              = snd (snd (fetchSwaggerDoc w config u (st\<lparr>cache := Map.empty\<rparr>))) \<and>
            (\<forall>d'. fst (fetchSwaggerDoc w config u st) = Inr d' \<longrightarrow>
                  snd (snd (fetchSwaggerDoc w config u st)) \<noteq> [] \<and>
                  cache (fst (snd (fetchSwaggerDoc w config u st)))
                    = (cache st)(u \<mapsto> (d', now_store w))) \<and>
            (isDirectUrl u \<longrightarrow>
               snd (snd (fetchSwaggerDoc w config u st)) = [u] \<and>
               (\<forall>body v. axios_get w u (request_config w config) = Some (Text body) \<and>
                         YAML_parse w body = Some v \<longrightarrow>
                    fetchSwaggerDoc w config u st
                      = (Inr v, st\<lparr>cache := (cache st)(u \<mapsto> (v, now_store w))\<rparr>, [u]))) \<and>
            (\<forall>b. \<not> isDirectUrl u \<and> URL_origin w u = Some b \<longrightarrow>
               (\<exists>tr. snd (snd (fetchSwaggerDoc w config u st))
                       = (b @ ''/swagger-config.json'') # tr)) \<and>
            (\<forall>b c us. \<not> isDirectUrl u \<and> hub_ready w config u b c us \<longrightarrow>
               fetchSwaggerDoc w config u st
                 = (Inr (Obj (combinedDoc
                      (fst (processAll w config b us
                              (st\<lparr>swaggerConfig := Obj c, combinedDocs := []\<rparr>) no_merged))
                      (fst (snd (processAll w config b us
                              (st\<lparr>swaggerConfig := Obj c, combinedDocs := []\<rparr>) no_merged)))
                      (length us))),
                    (fst (processAll w config b us
                              (st\<lparr>swaggerConfig := Obj c, combinedDocs := []\<rparr>) no_merged))
                      \<lparr>cache := (cache st)(u \<mapsto>
                         (Obj (combinedDoc
                            (fst (processAll w config b us
                                    (st\<lparr>swaggerConfig := Obj c, combinedDocs := []\<rparr>) no_merged))
                            (fst (snd (processAll w config b us
                                    (st\<lparr>swaggerConfig := Obj c, combinedDocs := []\<rparr>) no_merged)))
                            (length us)),
                          now_store w))\<rparr>,
                    (b @ ''/swagger-config.json'') # map (fullUrl b) us)))"
proof (intro conjI impI)
  assume "now_lookup w - ts < cacheTTL config"
  with assms show "fetchSwaggerDoc w config u st = (Inr d, st, [])"
    by (rule fetchSwaggerDoc_hit)
next
  assume stale: "\<not> now_lookup w - ts < cacheTTL config"
  with assms have miss: "\<not> fresh_entry w config st u"
    by (simp add: fresh_entry_def)
  have miss0: "\<not> fresh_entry w config (st\<lparr>cache := Map.empty\<rparr>) u"
    by (simp add: fresh_entry_def)
  show "fst (fetchSwaggerDoc w config u st)
          = fst (fetchSwaggerDoc w config u (st\<lparr>cache := Map.empty\<rparr>))"
    using fetchDirect_result_any_state [of w config u st "st\<lparr>cache := Map.empty\<rparr>"]
      fetchHub_any_cache [where w = w and config = config and u = u and st = st and x = Map.empty]
    by (simp add: fetchSwaggerDoc_miss [OF miss] fetchSwaggerDoc_miss [OF miss0])
  show "snd (snd (fetchSwaggerDoc w config u st))
          = snd (snd (fetchSwaggerDoc w config u (st\<lparr>cache := Map.empty\<rparr>)))"
    using fetchDirect_cases [of w config u st]
      fetchDirect_cases [of w config u "st\<lparr>cache := Map.empty\<rparr>"]
      fetchHub_any_cache [where w = w and config = config and u = u and st = st and x = Map.empty]
    by (auto simp add: fetchSwaggerDoc_miss [OF miss] fetchSwaggerDoc_miss [OF miss0])
  show "\<forall>d'. fst (fetchSwaggerDoc w config u st) = Inr d' \<longrightarrow>
          snd (snd (fetchSwaggerDoc w config u st)) \<noteq> [] \<and>
          cache (fst (snd (fetchSwaggerDoc w config u st)))
            = (cache st)(u \<mapsto> (d', now_store w))"
    using fetchDirect_cases [of w config u st] fetchHub_stored [of w config u st]
    by (auto simp add: fetchSwaggerDoc_miss [OF miss])
  show "isDirectUrl u \<Longrightarrow> snd (snd (fetchSwaggerDoc w config u st)) = [u]"
    using fetchDirect_cases [of w config u st]
    by (auto simp add: fetchSwaggerDoc_miss [OF miss])
  show "isDirectUrl u \<Longrightarrow>
        \<forall>body v. axios_get w u (request_config w config) = Some (Text body) \<and>
                  YAML_parse w body = Some v \<longrightarrow>
        fetchSwaggerDoc w config u st
          = (Inr v, st\<lparr>cache := (cache st)(u \<mapsto> (v, now_store w))\<rparr>, [u])"
    using fetchDirect_parsed [of w u config _ _ st]
    by (simp add: fetchSwaggerDoc_miss [OF miss])
  show "\<forall>b. \<not> isDirectUrl u \<and> URL_origin w u = Some b \<longrightarrow>
        (\<exists>tr. snd (snd (fetchSwaggerDoc w config u st)) = (b @ ''/swagger-config.json'') # tr)"
    using fetchHub_requests_registry [of w u _ config st]
    by (simp add: fetchSwaggerDoc_miss [OF miss])
  show "\<forall>b c us. \<not> isDirectUrl u \<and> hub_ready w config u b c us \<longrightarrow>
        fetchSwaggerDoc w config u st
          = (Inr (Obj (combinedDoc
               (fst (processAll w config b us
                       (st\<lparr>swaggerConfig := Obj c, combinedDocs := []\<rparr>) no_merged))
               (fst (snd (processAll w config b us
                       (st\<lparr>swaggerConfig := Obj c, combinedDocs := []\<rparr>) no_merged)))
               (length us))),
             (fst (processAll w config b us
                       (st\<lparr>swaggerConfig := Obj c, combinedDocs := []\<rparr>) no_merged))
               \<lparr>cache := (cache st)(u \<mapsto>
                  (Obj (combinedDoc
                     (fst (processAll w config b us
                             (st\<lparr>swaggerConfig := Obj c, combinedDocs := []\<rparr>) no_merged))
                     (fst (snd (processAll w config b us
                             (st\<lparr>swaggerConfig := Obj c, combinedDocs := []\<rparr>) no_merged)))
                     (length us)),
                   now_store w))\<rparr>,
             (b @ ''/swagger-config.json'') # map (fullUrl b) us)"
    using fetchHub_ready [where w = w and config = config and u = u and st = st]
    by (auto simp add: fetchSwaggerDoc_miss [OF miss] Let_def simp del: processAll.simps)
qed

theorem cache_within_and_after_ttl_witness:
  "cache cached_fetcher direct_url = Some (Obj legacy_both, 1000) \<and>
   now_lookup (petstore_world 300999) - 1000 < cacheTTL no_auth \<and>
   fetchSwaggerDoc (petstore_world 300999) no_auth direct_url cached_fetcher
     = (Inr (Obj legacy_both), cached_fetcher, []) \<and>
   \<not> now_lookup (petstore_world 301000) - 1000 < cacheTTL no_auth \<and>
   fst (fetchSwaggerDoc (petstore_world 301000) no_auth direct_url cached_fetcher)
     = Inr (Obj petstore) \<and>
   snd (snd (fetchSwaggerDoc (petstore_world 301000) no_auth direct_url cached_fetcher))
     = [direct_url] \<and>
   cache (fst (snd (fetchSwaggerDoc (petstore_world 301000) no_auth direct_url cached_fetcher)))
     direct_url = Some (Obj petstore, 301005) \<and>
   cache cached_hub_fetcher hub_url = Some (Obj legacy_both, 1000) \<and>
   \<not> now_lookup late_hub_world - 1000 < cacheTTL no_auth \<and>
   \<not> isDirectUrl hub_url \<and>
   hub_ready late_hub_world no_auth hub_url hub_base registry
     [\<lparr>apiUrl = ''a.yaml'', apiName = ''alpha''\<rparr>,
      \<lparr>apiUrl = ''b.yaml'', apiName = ''beta''\<rparr>,
      \<lparr>apiUrl = ''c.yaml'', apiName = ''gamma''\<rparr>] \<and>
   (\<exists>doc. fst (fetchSwaggerDoc late_hub_world no_auth hub_url cached_hub_fetcher) = Inr (Obj doc) \<and>
      doc \<noteq> legacy_both \<and>
      openapi doc = Some ''3.0.0'' \<and>
      cache (fst (snd (fetchSwaggerDoc late_hub_world no_auth hub_url cached_hub_fetcher))) hub_url
        = Some (Obj doc, 400005)) \<and>
   snd (snd (fetchSwaggerDoc late_hub_world no_auth hub_url cached_hub_fetcher))
     = [registry_url, ''https://hub.example/a.yaml'', ''https://hub.example/b.yaml'',
        ''https://hub.example/c.yaml'']"
proof -
  have direct: "cache cached_fetcher direct_url = Some (Obj legacy_both, 1000) \<and>
   now_lookup (petstore_world 300999) - 1000 < cacheTTL no_auth \<and>
   fetchSwaggerDoc (petstore_world 300999) no_auth direct_url cached_fetcher
     = (Inr (Obj legacy_both), cached_fetcher, []) \<and>
   \<not> now_lookup (petstore_world 301000) - 1000 < cacheTTL no_auth \<and>
   fst (fetchSwaggerDoc (petstore_world 301000) no_auth direct_url cached_fetcher)
     = Inr (Obj petstore) \<and>
   snd (snd (fetchSwaggerDoc (petstore_world 301000) no_auth direct_url cached_fetcher))
     = [direct_url] \<and>
   cache (fst (snd (fetchSwaggerDoc (petstore_world 301000) no_auth direct_url cached_fetcher)))
     direct_url = Some (Obj petstore, 301005)"
    using cache_within_and_after_ttl [of cached_fetcher direct_url "Obj legacy_both" 1000
            "petstore_world 300999" no_auth]
      cache_within_and_after_ttl [of cached_fetcher direct_url "Obj legacy_both" 1000
            "petstore_world 301000" no_auth]
    by (simp add: fetchSwaggerDoc_def fetchDirect_def authenticatedRequest_def petstore_world_def
          table_world_def no_auth_def cached_fetcher_def new_fetcher_def
          isDirectUrl_def endsWith_def direct_url_def)
  have entry: "cache cached_hub_fetcher hub_url = Some (Obj legacy_both, 1000)"
    by (simp add: cached_hub_fetcher_def)
  have stale: "\<not> now_lookup late_hub_world - 1000 < cacheTTL no_auth"
    by (simp add: late_hub_world_def table_world_def no_auth_def)
  note ind = hub_individual [of registry_text "[(registry_text, Obj registry)]" 400000 400005,
      folded late_hub_world_def]
  from ind have a: "fst (fetchIndividualSwaggerDoc late_hub_world no_auth hub_base
                      (apiUrl \<lparr>apiUrl = ''a.yaml'', apiName = ''alpha''\<rparr>)) = Inr (Obj alpha_doc)"
    and b: "isl (fst (fetchIndividualSwaggerDoc late_hub_world no_auth hub_base
                      (apiUrl \<lparr>apiUrl = ''b.yaml'', apiName = ''beta''\<rparr>)))"
    and c: "fst (fetchIndividualSwaggerDoc late_hub_world no_auth hub_base
                      (apiUrl \<lparr>apiUrl = ''c.yaml'', apiName = ''gamma''\<rparr>)) = Inr (Obj gamma_doc)"
    by simp_all
  have pa: "paths alpha_doc = Some [''/a'' \<mapsto> JStr ''alpha'', ''/shared'' \<mapsto> JStr ''alpha'']"
    and pc: "paths gamma_doc = Some [''/c'' \<mapsto> JStr ''gamma'', ''/shared'' \<mapsto> JStr ''gamma'']"
    by (simp_all add: alpha_doc_def gamma_doc_def)
  note loop = processAll_three [OF a pa b c pc]
  from cache_within_and_after_ttl [OF entry, of late_hub_world no_auth] stale
    hub_url_not_direct late_hub_world_ready
  have run: "fetchSwaggerDoc late_hub_world no_auth hub_url cached_hub_fetcher
      = (Inr (Obj (combinedDoc
           (fst (processAll late_hub_world no_auth hub_base
                   [\<lparr>apiUrl = ''a.yaml'', apiName = ''alpha''\<rparr>,
                    \<lparr>apiUrl = ''b.yaml'', apiName = ''beta''\<rparr>,
                    \<lparr>apiUrl = ''c.yaml'', apiName = ''gamma''\<rparr>]
                   (cached_hub_fetcher\<lparr>swaggerConfig := Obj registry, combinedDocs := []\<rparr>) no_merged))
           (fst (snd (processAll late_hub_world no_auth hub_base
                   [\<lparr>apiUrl = ''a.yaml'', apiName = ''alpha''\<rparr>,
                    \<lparr>apiUrl = ''b.yaml'', apiName = ''beta''\<rparr>,
                    \<lparr>apiUrl = ''c.yaml'', apiName = ''gamma''\<rparr>]
                   (cached_hub_fetcher\<lparr>swaggerConfig := Obj registry, combinedDocs := []\<rparr>) no_merged)))
           (length [\<lparr>apiUrl = ''a.yaml'', apiName = ''alpha''\<rparr>,
                    \<lparr>apiUrl = ''b.yaml'', apiName = ''beta''\<rparr>,
                    \<lparr>apiUrl = ''c.yaml'', apiName = ''gamma''\<rparr>]))),
         (fst (processAll late_hub_world no_auth hub_base
                   [\<lparr>apiUrl = ''a.yaml'', apiName = ''alpha''\<rparr>,
                    \<lparr>apiUrl = ''b.yaml'', apiName = ''beta''\<rparr>,
                    \<lparr>apiUrl = ''c.yaml'', apiName = ''gamma''\<rparr>]
                   (cached_hub_fetcher\<lparr>swaggerConfig := Obj registry, combinedDocs := []\<rparr>) no_merged))
           \<lparr>cache := (cache cached_hub_fetcher)(hub_url \<mapsto>
              (Obj (combinedDoc
                 (fst (processAll late_hub_world no_auth hub_base
                   [\<lparr>apiUrl = ''a.yaml'', apiName = ''alpha''\<rparr>,
                    \<lparr>apiUrl = ''b.yaml'', apiName = ''beta''\<rparr>,
                    \<lparr>apiUrl = ''c.yaml'', apiName = ''gamma''\<rparr>]
                   (cached_hub_fetcher\<lparr>swaggerConfig := Obj registry, combinedDocs := []\<rparr>) no_merged))
                 (fst (snd (processAll late_hub_world no_auth hub_base
                   [\<lparr>apiUrl = ''a.yaml'', apiName = ''alpha''\<rparr>,
                    \<lparr>apiUrl = ''b.yaml'', apiName = ''beta''\<rparr>,
                    \<lparr>apiUrl = ''c.yaml'', apiName = ''gamma''\<rparr>]
                   (cached_hub_fetcher\<lparr>swaggerConfig := Obj registry, combinedDocs := []\<rparr>) no_merged)))
                 (length [\<lparr>apiUrl = ''a.yaml'', apiName = ''alpha''\<rparr>,
                    \<lparr>apiUrl = ''b.yaml'', apiName = ''beta''\<rparr>,
                    \<lparr>apiUrl = ''c.yaml'', apiName = ''gamma''\<rparr>])),
               now_store late_hub_world))\<rparr>,
         (hub_base @ ''/swagger-config.json'')
           # map (fullUrl hub_base) [\<lparr>apiUrl = ''a.yaml'', apiName = ''alpha''\<rparr>,
                    \<lparr>apiUrl = ''b.yaml'', apiName = ''beta''\<rparr>,
                    \<lparr>apiUrl = ''c.yaml'', apiName = ''gamma''\<rparr>])"
    by blast
  have hub: "(\<exists>doc. fst (fetchSwaggerDoc late_hub_world no_auth hub_url cached_hub_fetcher) = Inr (Obj doc) \<and>
      doc \<noteq> legacy_both \<and>
      openapi doc = Some ''3.0.0'' \<and>
      cache (fst (snd (fetchSwaggerDoc late_hub_world no_auth hub_url cached_hub_fetcher))) hub_url
        = Some (Obj doc, 400005)) \<and>
   snd (snd (fetchSwaggerDoc late_hub_world no_auth hub_url cached_hub_fetcher))
     = [registry_url, ''https://hub.example/a.yaml'', ''https://hub.example/b.yaml'',
        ''https://hub.example/c.yaml'']"
    unfolding run loop
    by (auto simp add: combinedDoc_def firstDoc_def docWithSource_def alpha_doc_def legacy_both_def
          late_hub_world_def table_world_def hub_base_def registry_url_def fullUrl_def)
  from direct entry stale hub_url_not_direct late_hub_world_ready hub show ?thesis
    by blast
qed

section \<open>Properties of fetchSwaggerDoc: hub mode\<close>

text \<open>
  C3. In hub mode, once the registry has been obtained and lists at least one entry,
  \<open>fetchSwaggerDoc\<close> never throws, whatever happens to the single entries: it returns a
  composite document, caches it, and has requested the registry and then every entry
  in registry order, also those after an entry that failed. If every entry fails in
  transport or decoding, the composite has empty paths and empty schemas (and no tags).
  The entries that do not fail are processed, wherever they stand in the registry: when
  the names of the registry are distinct, the document answered for an entry is retained
  under the name of the entry; and the paths, the schemas and the tags of the composite
  are those of the documents, in registry order, that were answered with a \<open>paths\<close>
  object, so that every path, every schema name and every tag name of such a document
  occurs in the composite (a key \<open>__proto__\<close> apart, which an assignment does not
  create). An entry that fails in transport or decoding is skipped without effect: the
  retained documents and the merged paths, schemas and tags are those of the same
  registry with that entry left out.
\<close>

theorem hub_tolerates_failed_entries:
  assumes "\<not> isDirectUrl u" and "\<not> fresh_entry w config st u"
    and "hub_ready w config u b c us"
  shows "(\<exists>doc st'.
            fetchSwaggerDoc w config u st
              = (Inr (Obj doc), st', (b @ ''/swagger-config.json'') # map (fullUrl b) us) \<and>
            cache st' u = Some (Obj doc, now_store w) \<and>
            ((\<forall>a\<in>set us. isl (fst (fetchIndividualSwaggerDoc w config b (apiUrl a)))) \<longrightarrow>
               paths doc = Some Map.empty \<and>
               components doc = Some \<lparr>schemas = Some Map.empty, securitySchemes = None\<rparr> \<and>
               tags doc = Some []) \<and>
            (distinct (map apiName us) \<longrightarrow>
               (\<forall>a\<in>set us. \<forall>d. fst (fetchIndividualSwaggerDoc w config b (apiUrl a)) = Inr d \<longrightarrow>
                  getDocBySource st' (apiName a) = Some (docWithSource d (apiName a)))) \<and>
            paths doc
              = Some (own (foldl (\<lambda>obj d. assign_entries (paths_of d) obj) empty_object
                             (merged_sources w config b us))) \<and>
            componentsSchemas doc
              = Some (own (foldl (\<lambda>obj d. assign_entries (schemas_of d) obj) empty_object
                             (merged_sources w config b us))) \<and>
            tags doc = Some (first_by_name (concat (map tags_of (merged_sources w config b us)))) \<and>
            (\<forall>a\<in>set us. \<forall>d ps.
               fst (fetchIndividualSwaggerDoc w config b (apiUrl a)) = Inr (Obj d) \<and>
               paths d = Some ps \<longrightarrow>
                 (\<forall>k. k \<in> dom ps \<and> k \<noteq> ''__proto__'' \<longrightarrow> k \<in> dom (paths_of doc)) \<and>
                 (\<forall>k. k \<in> dom (schemas_of d) \<and> k \<noteq> ''__proto__'' \<longrightarrow> k \<in> dom (schemas_of doc)) \<and>
                 (\<forall>t\<in>set (tags_of d). tag_name t \<in> tag_name ` set (tags_of doc)))) \<and>
         (\<forall>xs a ys s m.
            isl (fst (fetchIndividualSwaggerDoc w config b (apiUrl a))) \<longrightarrow>
              fst (processAll w config b (xs @ a # ys) s m)
                = fst (processAll w config b (xs @ ys) s m) \<and>
              fst (snd (processAll w config b (xs @ a # ys) s m))
                = fst (snd (processAll w config b (xs @ ys) s m)))"
proof (intro conjI)
  let ?s = "st\<lparr>swaggerConfig := Obj c, combinedDocs := []\<rparr>"
  let ?q = "processAll w config b us ?s no_merged"
  let ?doc = "combinedDoc (fst ?q) (fst (snd ?q)) (length us)"
  let ?st' = "(fst ?q)\<lparr>cache := (cache st)(u \<mapsto> (Obj ?doc, now_store w))\<rparr>"
  let ?ms = "merged_sources w config b us"
  have run: "fetchSwaggerDoc w config u st
               = (Inr (Obj ?doc), ?st', (b @ ''/swagger-config.json'') # map (fullUrl b) us)"
    using assms(1) by (simp add: fetchSwaggerDoc_miss [OF assms(2)] fetchHub_ready [OF assms(3)] Let_def)
  have stored: "cache ?st' u = Some (Obj ?doc, now_store w)"
    by simp
  have all_failed: "paths ?doc = Some Map.empty \<and>
        components ?doc = Some \<lparr>schemas = Some Map.empty, securitySchemes = None\<rparr> \<and>
        tags ?doc = Some []"
    if "\<forall>a\<in>set us. isl (fst (fetchIndividualSwaggerDoc w config b (apiUrl a)))"
  proof -
    from that have "?q = (?s, no_merged, map (fullUrl b) us)"
      by (rule processAll_all_failed)
    then show ?thesis
      by (simp add: combinedDoc_nothing)
  qed
  have retained: "getDocBySource ?st' (apiName a) = Some (docWithSource d (apiName a))"
    if "distinct (map apiName us)" and "a \<in> set us"
      and "fst (fetchIndividualSwaggerDoc w config b (apiUrl a)) = Inr d" for a d
    using processAll_retained [OF that, of ?s no_merged]
    by (simp add: getDocBySource_def)
  have ps: "paths ?doc = Some (own (foldl (\<lambda>obj d. assign_entries (paths_of d) obj) empty_object ?ms))"
    and ss: "componentsSchemas ?doc
               = Some (own (foldl (\<lambda>obj d. assign_entries (schemas_of d) obj) empty_object ?ms))"
    by (simp_all add: combinedDoc_fields processAll_objects no_merged_def)
  have ts: "tags ?doc = Some (first_by_name (concat (map tags_of ?ms)))"
    by (simp add: combinedDoc_fields processAll_tags no_merged_def)
  have present: "(\<forall>k. k \<in> dom ps' \<and> k \<noteq> ''__proto__'' \<longrightarrow> k \<in> dom (paths_of ?doc)) \<and>
                 (\<forall>k. k \<in> dom (schemas_of d) \<and> k \<noteq> ''__proto__'' \<longrightarrow> k \<in> dom (schemas_of ?doc)) \<and>
                 (\<forall>t\<in>set (tags_of d). tag_name t \<in> tag_name ` set (tags_of ?doc))"
    if a: "a \<in> set us" and d: "fst (fetchIndividualSwaggerDoc w config b (apiUrl a)) = Inr (Obj d)"
      and p: "paths d = Some ps'" for a d ps'
  proof -
    from d p have "merged_source w config b a = Some d"
      by (simp add: merged_source_def)
    with a have mem: "d \<in> set ?ms"
      by (rule merged_sources_member)
    have "k \<in> dom (paths_of ?doc)" if "k \<in> dom ps'" and "k \<noteq> ''__proto__''" for k
      using fold_assign_member [OF mem, of k paths_of empty_object] that p ps
      by (simp add: paths_of_def)
    moreover have "k \<in> dom (schemas_of ?doc)" if "k \<in> dom (schemas_of d)" and "k \<noteq> ''__proto__''" for k
      using fold_assign_member [OF mem, of k schemas_of empty_object] that ss
      by (simp add: schemas_of_def [of ?doc])
    moreover have "tag_name t \<in> tag_name ` set (tags_of ?doc)" if "t \<in> set (tags_of d)" for t
    proof -
      from that mem have "tag_name t \<in> set (map tag_name (concat (map tags_of ?ms)))"
        by auto
      then have "tag_name t \<in> set (map tag_name (first_by_name (concat (map tags_of ?ms))))"
        by (simp only: first_by_name_names)
      with ts show ?thesis
        by (simp add: tags_of_def [of ?doc])
    qed
    ultimately show ?thesis by blast
  qed
  show "\<exists>doc st'.
            fetchSwaggerDoc w config u st
              = (Inr (Obj doc), st', (b @ ''/swagger-config.json'') # map (fullUrl b) us) \<and>
            cache st' u = Some (Obj doc, now_store w) \<and>
            ((\<forall>a\<in>set us. isl (fst (fetchIndividualSwaggerDoc w config b (apiUrl a)))) \<longrightarrow>
               paths doc = Some Map.empty \<and>
               components doc = Some \<lparr>schemas = Some Map.empty, securitySchemes = None\<rparr> \<and>
               tags doc = Some []) \<and>
            (distinct (map apiName us) \<longrightarrow>
               (\<forall>a\<in>set us. \<forall>d. fst (fetchIndividualSwaggerDoc w config b (apiUrl a)) = Inr d \<longrightarrow>
                  getDocBySource st' (apiName a) = Some (docWithSource d (apiName a)))) \<and>
            paths doc
              = Some (own (foldl (\<lambda>obj d. assign_entries (paths_of d) obj) empty_object
                             (merged_sources w config b us))) \<and>
            componentsSchemas doc
              = Some (own (foldl (\<lambda>obj d. assign_entries (schemas_of d) obj) empty_object
                             (merged_sources w config b us))) \<and>
            tags doc = Some (first_by_name (concat (map tags_of (merged_sources w config b us)))) \<and>
            (\<forall>a\<in>set us. \<forall>d ps.
               fst (fetchIndividualSwaggerDoc w config b (apiUrl a)) = Inr (Obj d) \<and>
               paths d = Some ps \<longrightarrow>
                 (\<forall>k. k \<in> dom ps \<and> k \<noteq> ''__proto__'' \<longrightarrow> k \<in> dom (paths_of doc)) \<and>
                 (\<forall>k. k \<in> dom (schemas_of d) \<and> k \<noteq> ''__proto__'' \<longrightarrow> k \<in> dom (schemas_of doc)) \<and>
                 (\<forall>t\<in>set (tags_of d). tag_name t \<in> tag_name ` set (tags_of doc)))"
  proof (intro exI conjI)
    show "fetchSwaggerDoc w config u st
            = (Inr (Obj ?doc), ?st', (b @ ''/swagger-config.json'') # map (fullUrl b) us)"
      by (rule run)
    show "cache ?st' u = Some (Obj ?doc, now_store w)"
      by (rule stored)
    show "(\<forall>a\<in>set us. isl (fst (fetchIndividualSwaggerDoc w config b (apiUrl a)))) \<longrightarrow>
               paths ?doc = Some Map.empty \<and>
               components ?doc = Some \<lparr>schemas = Some Map.empty, securitySchemes = None\<rparr> \<and>
               tags ?doc = Some []"
    proof (rule impI)
      assume "\<forall>a\<in>set us. isl (fst (fetchIndividualSwaggerDoc w config b (apiUrl a)))"
      then show "paths ?doc = Some Map.empty \<and>
               components ?doc = Some \<lparr>schemas = Some Map.empty, securitySchemes = None\<rparr> \<and>
               tags ?doc = Some []"
        by (rule all_failed)
    qed
    show "distinct (map apiName us) \<longrightarrow>
               (\<forall>a\<in>set us. \<forall>d. fst (fetchIndividualSwaggerDoc w config b (apiUrl a)) = Inr d \<longrightarrow>
                  getDocBySource ?st' (apiName a) = Some (docWithSource d (apiName a)))"
    proof (intro impI ballI allI)
      fix a d
      assume "distinct (map apiName us)" and "a \<in> set us"
        and "fst (fetchIndividualSwaggerDoc w config b (apiUrl a)) = Inr d"
      then show "getDocBySource ?st' (apiName a) = Some (docWithSource d (apiName a))"
        by (rule retained)
    qed
    show "paths ?doc
            = Some (own (foldl (\<lambda>obj d. assign_entries (paths_of d) obj) empty_object ?ms))"
      by (rule ps)
    show "componentsSchemas ?doc
            = Some (own (foldl (\<lambda>obj d. assign_entries (schemas_of d) obj) empty_object ?ms))"
      by (rule ss)
    show "tags ?doc = Some (first_by_name (concat (map tags_of ?ms)))"
      by (rule ts)
    show "\<forall>a\<in>set us. \<forall>d ps.
               fst (fetchIndividualSwaggerDoc w config b (apiUrl a)) = Inr (Obj d) \<and>
               paths d = Some ps \<longrightarrow>
                 (\<forall>k. k \<in> dom ps \<and> k \<noteq> ''__proto__'' \<longrightarrow> k \<in> dom (paths_of ?doc)) \<and>
                 (\<forall>k. k \<in> dom (schemas_of d) \<and> k \<noteq> ''__proto__'' \<longrightarrow> k \<in> dom (schemas_of ?doc)) \<and>
                 (\<forall>t\<in>set (tags_of d). tag_name t \<in> tag_name ` set (tags_of ?doc))"
    proof (intro ballI allI impI)
      fix a d ps'
      assume "a \<in> set us"
        and "fst (fetchIndividualSwaggerDoc w config b (apiUrl a)) = Inr (Obj d) \<and> paths d = Some ps'"
      then have "a \<in> set us" and "fst (fetchIndividualSwaggerDoc w config b (apiUrl a)) = Inr (Obj d)"
        and "paths d = Some ps'"
        by simp_all
      then show "(\<forall>k. k \<in> dom ps' \<and> k \<noteq> ''__proto__'' \<longrightarrow> k \<in> dom (paths_of ?doc)) \<and>
                 (\<forall>k. k \<in> dom (schemas_of d) \<and> k \<noteq> ''__proto__'' \<longrightarrow> k \<in> dom (schemas_of ?doc)) \<and>
                 (\<forall>t\<in>set (tags_of d). tag_name t \<in> tag_name ` set (tags_of ?doc))"
        by (rule present)
    qed
  qed
next
  show "\<forall>xs a ys s m.
            isl (fst (fetchIndividualSwaggerDoc w config b (apiUrl a))) \<longrightarrow>
              fst (processAll w config b (xs @ a # ys) s m)
                = fst (processAll w config b (xs @ ys) s m) \<and>
              fst (snd (processAll w config b (xs @ a # ys) s m))
                = fst (snd (processAll w config b (xs @ ys) s m))"
    using processAll_skip by blast
qed

theorem hub_tolerates_failed_entries_witness:
  "\<not> isDirectUrl hub_url \<and>
   \<not> fresh_entry registry_only no_auth new_fetcher hub_url \<and>
   hub_ready registry_only no_auth hub_url hub_base registry (the (urls registry)) \<and>
   (\<exists>doc st'. fetchSwaggerDoc registry_only no_auth hub_url new_fetcher
        = (Inr (Obj doc), st',
           [registry_url, ''https://hub.example/a.yaml'', ''https://hub.example/b.yaml'',
            ''https://hub.example/c.yaml'']) \<and>
      cache st' hub_url = Some (Obj doc, 2005) \<and>
      paths doc = Some Map.empty \<and>
      components doc = Some \<lparr>schemas = Some Map.empty, securitySchemes = None\<rparr>) \<and>
   \<not> fresh_entry hub_world no_auth new_fetcher hub_url \<and>
   hub_ready hub_world no_auth hub_url hub_base registry
     [\<lparr>apiUrl = ''a.yaml'', apiName = ''alpha''\<rparr>,
      \<lparr>apiUrl = ''b.yaml'', apiName = ''beta''\<rparr>,
      \<lparr>apiUrl = ''c.yaml'', apiName = ''gamma''\<rparr>] \<and>
   isl (fst (fetchIndividualSwaggerDoc hub_world no_auth hub_base ''b.yaml'')) \<and>
   fst (fetchIndividualSwaggerDoc hub_world no_auth hub_base ''c.yaml'') = Inr (Obj gamma_doc) \<and>
   (\<exists>doc st'. fetchSwaggerDoc hub_world no_auth hub_url new_fetcher
        = (Inr (Obj doc), st',
           [registry_url, ''https://hub.example/a.yaml'', ''https://hub.example/b.yaml'',
            ''https://hub.example/c.yaml'']) \<and>
      cache st' hub_url = Some (Obj doc, 2005) \<and>
      getDocBySource st' ''gamma'' = Some (docWithSource (Obj gamma_doc) ''gamma'') \<and>
      ''/c'' \<in> dom (paths_of doc) \<and>
      ''Extra'' \<in> dom (schemas_of doc) \<and>
      ''pets'' \<in> tag_name ` set (tags_of doc))"
proof -
  have miss: "\<not> fresh_entry registry_only no_auth new_fetcher hub_url"
    by (rule new_fetcher_miss)
  from hub_tolerates_failed_entries [OF hub_url_not_direct miss registry_only_ready, THEN conjunct1]
  obtain doc st' where
    "fetchSwaggerDoc registry_only no_auth hub_url new_fetcher
        = (Inr (Obj doc), st', (hub_base @ ''/swagger-config.json'')
             # map (fullUrl hub_base) (the (urls registry)))"
    "cache st' hub_url = Some (Obj doc, now_store registry_only)"
    "(\<forall>a\<in>set (the (urls registry)).
        isl (fst (fetchIndividualSwaggerDoc registry_only no_auth hub_base (apiUrl a)))) \<longrightarrow>
     paths doc = Some Map.empty \<and>
     components doc = Some \<lparr>schemas = Some Map.empty, securitySchemes = None\<rparr> \<and>
     tags doc = Some []"
    by (elim exE conjE) (rule that)
  with registry_only_all_fail have "fetchSwaggerDoc registry_only no_auth hub_url new_fetcher
        = (Inr (Obj doc), st',
           [registry_url, ''https://hub.example/a.yaml'', ''https://hub.example/b.yaml'',
            ''https://hub.example/c.yaml'']) \<and>
      cache st' hub_url = Some (Obj doc, 2005) \<and>
      paths doc = Some Map.empty \<and>
      components doc = Some \<lparr>schemas = Some Map.empty, securitySchemes = None\<rparr>"
    by (simp add: hub_base_def registry_url_def registry_def fullUrl_def registry_only_def
          table_world_def)
  then have none: "\<exists>doc st'. fetchSwaggerDoc registry_only no_auth hub_url new_fetcher
        = (Inr (Obj doc), st',
           [registry_url, ''https://hub.example/a.yaml'', ''https://hub.example/b.yaml'',
            ''https://hub.example/c.yaml'']) \<and>
      cache st' hub_url = Some (Obj doc, 2005) \<and>
      paths doc = Some Map.empty \<and>
      components doc = Some \<lparr>schemas = Some Map.empty, securitySchemes = None\<rparr>"
    by blast
  let ?us = "[\<lparr>apiUrl = ''a.yaml'', apiName = ''alpha''\<rparr>,
              \<lparr>apiUrl = ''b.yaml'', apiName = ''beta''\<rparr>,
              \<lparr>apiUrl = ''c.yaml'', apiName = ''gamma''\<rparr>]"
  let ?C = "\<lparr>apiUrl = ''c.yaml'', apiName = ''gamma''\<rparr>"
  note ind = hub_individual [of registry_text "[(registry_text, Obj registry)]" 2000 2005,
      folded hub_world_def]
  from ind have b: "isl (fst (fetchIndividualSwaggerDoc hub_world no_auth hub_base ''b.yaml''))"
    and c: "fst (fetchIndividualSwaggerDoc hub_world no_auth hub_base (apiUrl ?C)) = Inr (Obj gamma_doc)"
    by simp_all
  have miss': "\<not> fresh_entry hub_world no_auth new_fetcher hub_url"
    by (rule new_fetcher_miss)
  from hub_tolerates_failed_entries [OF hub_url_not_direct miss' hub_world_ready, THEN conjunct1]
  obtain doc' st'' where run: "fetchSwaggerDoc hub_world no_auth hub_url new_fetcher
        = (Inr (Obj doc'), st'', (hub_base @ ''/swagger-config.json'') # map (fullUrl hub_base) ?us)"
    and stored: "cache st'' hub_url = Some (Obj doc', now_store hub_world)"
    and retained: "distinct (map apiName ?us) \<longrightarrow>
               (\<forall>a\<in>set ?us. \<forall>d. fst (fetchIndividualSwaggerDoc hub_world no_auth hub_base (apiUrl a)) = Inr d \<longrightarrow>
                  getDocBySource st'' (apiName a) = Some (docWithSource d (apiName a)))"
    and present: "\<forall>a\<in>set ?us. \<forall>d ps.
               fst (fetchIndividualSwaggerDoc hub_world no_auth hub_base (apiUrl a)) = Inr (Obj d) \<and>
               paths d = Some ps \<longrightarrow>
                 (\<forall>k. k \<in> dom ps \<and> k \<noteq> ''__proto__'' \<longrightarrow> k \<in> dom (paths_of doc')) \<and>
                 (\<forall>k. k \<in> dom (schemas_of d) \<and> k \<noteq> ''__proto__'' \<longrightarrow> k \<in> dom (schemas_of doc')) \<and>
                 (\<forall>t\<in>set (tags_of d). tag_name t \<in> tag_name ` set (tags_of doc'))"
    by (elim exE conjE) (rule that)
  have C: "?C \<in> set ?us" by simp
  have names: "distinct (map apiName ?us)" by simp
  from retained names
  have "\<forall>a\<in>set ?us. \<forall>d. fst (fetchIndividualSwaggerDoc hub_world no_auth hub_base (apiUrl a)) = Inr d \<longrightarrow>
                  getDocBySource st'' (apiName a) = Some (docWithSource d (apiName a))"
    by (rule mp)
  from this C
  have "\<forall>d. fst (fetchIndividualSwaggerDoc hub_world no_auth hub_base (apiUrl ?C)) = Inr d \<longrightarrow>
                  getDocBySource st'' (apiName ?C) = Some (docWithSource d (apiName ?C))"
    by (rule bspec)
  then have "fst (fetchIndividualSwaggerDoc hub_world no_auth hub_base (apiUrl ?C)) = Inr (Obj gamma_doc) \<longrightarrow>
                  getDocBySource st'' (apiName ?C) = Some (docWithSource (Obj gamma_doc) (apiName ?C))"
    by (rule spec)
  with c have kept: "getDocBySource st'' ''gamma'' = Some (docWithSource (Obj gamma_doc) ''gamma'')"
    by simp
  have pc: "paths gamma_doc = Some [''/c'' \<mapsto> JStr ''gamma'', ''/shared'' \<mapsto> JStr ''gamma'']"
    by (simp add: gamma_doc_def)
  from present C
  have "\<forall>d ps.
               fst (fetchIndividualSwaggerDoc hub_world no_auth hub_base (apiUrl ?C)) = Inr (Obj d) \<and>
               paths d = Some ps \<longrightarrow>
                 (\<forall>k. k \<in> dom ps \<and> k \<noteq> ''__proto__'' \<longrightarrow> k \<in> dom (paths_of doc')) \<and>
                 (\<forall>k. k \<in> dom (schemas_of d) \<and> k \<noteq> ''__proto__'' \<longrightarrow> k \<in> dom (schemas_of doc')) \<and>
                 (\<forall>t\<in>set (tags_of d). tag_name t \<in> tag_name ` set (tags_of doc'))"
    by (rule bspec)
  then have "\<forall>ps.
               fst (fetchIndividualSwaggerDoc hub_world no_auth hub_base (apiUrl ?C)) = Inr (Obj gamma_doc) \<and>
               paths gamma_doc = Some ps \<longrightarrow>
                 (\<forall>k. k \<in> dom ps \<and> k \<noteq> ''__proto__'' \<longrightarrow> k \<in> dom (paths_of doc')) \<and>
                 (\<forall>k. k \<in> dom (schemas_of gamma_doc) \<and> k \<noteq> ''__proto__'' \<longrightarrow> k \<in> dom (schemas_of doc')) \<and>
                 (\<forall>t\<in>set (tags_of gamma_doc). tag_name t \<in> tag_name ` set (tags_of doc'))"
    by (rule spec)
  then have "fst (fetchIndividualSwaggerDoc hub_world no_auth hub_base (apiUrl ?C)) = Inr (Obj gamma_doc) \<and>
               paths gamma_doc = Some [''/c'' \<mapsto> JStr ''gamma'', ''/shared'' \<mapsto> JStr ''gamma''] \<longrightarrow>
                 (\<forall>k. k \<in> dom [''/c'' \<mapsto> JStr ''gamma'', ''/shared'' \<mapsto> JStr ''gamma'']
                      \<and> k \<noteq> ''__proto__'' \<longrightarrow> k \<in> dom (paths_of doc')) \<and>
                 (\<forall>k. k \<in> dom (schemas_of gamma_doc) \<and> k \<noteq> ''__proto__'' \<longrightarrow> k \<in> dom (schemas_of doc')) \<and>
                 (\<forall>t\<in>set (tags_of gamma_doc). tag_name t \<in> tag_name ` set (tags_of doc'))"
    by (rule spec)
  with c pc
  have mp: "\<forall>k. k \<in> dom [''/c'' \<mapsto> JStr ''gamma'', ''/shared'' \<mapsto> JStr ''gamma'']
                      \<and> k \<noteq> ''__proto__'' \<longrightarrow> k \<in> dom (paths_of doc')"
    and ms: "\<forall>k. k \<in> dom (schemas_of gamma_doc) \<and> k \<noteq> ''__proto__'' \<longrightarrow> k \<in> dom (schemas_of doc')"
    and mt: "\<forall>t\<in>set (tags_of gamma_doc). tag_name t \<in> tag_name ` set (tags_of doc')"
    by simp_all
  have "''/c'' \<in> dom (paths_of doc')"
    using mp [THEN spec, of "''/c''"] by simp
  moreover have "''Extra'' \<in> dom (schemas_of doc')"
  proof -
    have "''Extra'' \<in> dom (schemas_of gamma_doc)"
      by (simp add: schemas_of_def componentsSchemas_def gamma_doc_def)
    with ms [THEN spec, of "''Extra''"] show ?thesis
      by simp
  qed
  moreover have "''pets'' \<in> tag_name ` set (tags_of doc')"
  proof -
    have "\<lparr>tag_name = ''pets'', tag_description = None\<rparr> \<in> set (tags_of gamma_doc)"
      by (simp add: tags_of_def gamma_doc_def)
    with mt have "tag_name \<lparr>tag_name = ''pets'', tag_description = None\<rparr>
                    \<in> tag_name ` set (tags_of doc')"
      by (rule bspec)
    then show ?thesis by simp
  qed
  moreover from run stored have "fetchSwaggerDoc hub_world no_auth hub_url new_fetcher
        = (Inr (Obj doc'), st'',
           [registry_url, ''https://hub.example/a.yaml'', ''https://hub.example/b.yaml'',
            ''https://hub.example/c.yaml'']) \<and>
      cache st'' hub_url = Some (Obj doc', 2005)"
    by (simp add: hub_base_def registry_url_def fullUrl_def hub_world_def table_world_def)
  ultimately have some: "\<exists>doc st'. fetchSwaggerDoc hub_world no_auth hub_url new_fetcher
        = (Inr (Obj doc), st',
           [registry_url, ''https://hub.example/a.yaml'', ''https://hub.example/b.yaml'',
            ''https://hub.example/c.yaml'']) \<and>
      cache st' hub_url = Some (Obj doc, 2005) \<and>
      getDocBySource st' ''gamma'' = Some (docWithSource (Obj gamma_doc) ''gamma'') \<and>
      ''/c'' \<in> dom (paths_of doc) \<and>
      ''Extra'' \<in> dom (schemas_of doc) \<and>
      ''pets'' \<in> tag_name ` set (tags_of doc)"
    using kept by (intro exI [of _ doc'] exI [of _ st'']) simp
  from c have c': "fst (fetchIndividualSwaggerDoc hub_world no_auth hub_base ''c.yaml'') = Inr (Obj gamma_doc)"
    by simp
  from hub_url_not_direct miss registry_only_ready none miss' hub_world_ready b c' some
  show ?thesis
    by (intro conjI)
qed




text \<open>
  C2, as the code has it. In hub mode, the schemas of the composite that
  \<open>fetchSwaggerDoc\<close> returns are stored under \<open>components.schemas\<close> (the composite has
  no \<open>definitions\<close>) and are merged, in registry order, from the source documents that
  were fetched and have a \<open>paths\<close> object. What a source document contributes is read
  from its \<open>components.schemas\<close> whenever the document has that map, from its
  \<open>definitions\<close> when it has no \<open>components.schemas\<close> but has \<open>definitions\<close>, and is
  nothing when it has neither: the presence of the maps decides, \<open>components.schemas\<close>
  first, and the document's \<open>openapi\<close> and \<open>swagger\<close> fields play no part. The merge
  assigns the entries one by one to a plain object; when no contribution has a key
  \<open>__proto__\<close> this is the union of the contributions in which a later one wins. Every
  schema name of the composite is a name of some contribution.
\<close>

theorem merge_reads_schemas_by_presence:
  assumes "\<not> isDirectUrl u" and "\<not> fresh_entry w config st u"
    and "hub_ready w config u b c us"
  shows "(\<exists>doc. returned (fetchSwaggerDoc w config u st) = Some doc \<and>
            definitions doc = None \<and>
            componentsSchemas doc
              = Some (own (foldl (\<lambda>obj d. assign_entries (schemas_of d) obj) empty_object
                             (merged_sources w config b us))) \<and>
            ((\<forall>d\<in>set (merged_sources w config b us). ''__proto__'' \<notin> dom (schemas_of d)) \<longrightarrow>
               componentsSchemas doc
                 = Some (foldl (\<lambda>acc d. acc ++ schemas_of d) Map.empty
                           (merged_sources w config b us))) \<and>
            (\<forall>k. k \<in> dom (schemas_of doc) \<longrightarrow>
               (\<exists>d\<in>set (merged_sources w config b us). k \<in> dom (schemas_of d)))) \<and>
         (\<forall>d. (\<forall>s. componentsSchemas d = Some s \<longrightarrow> schemas_of d = s) \<and>
              (\<forall>x. componentsSchemas d = None \<and> definitions d = Some x \<longrightarrow> schemas_of d = x) \<and>
              (componentsSchemas d = None \<and> definitions d = None \<longrightarrow> schemas_of d = Map.empty) \<and>
              (\<forall>m. allSchemas (mergeSchemas d m) = assign_entries (schemas_of d) (allSchemas m)) \<and>
              (\<forall>m v v'. mergeSchemas (d\<lparr>openapi := v, swagger := v'\<rparr>) m = mergeSchemas d m))"
proof (intro conjI allI)
  let ?s = "st\<lparr>swaggerConfig := Obj c, combinedDocs := []\<rparr>"
  let ?q = "processAll w config b us ?s no_merged"
  let ?doc = "combinedDoc (fst ?q) (fst (snd ?q)) (length us)"
  let ?ms = "merged_sources w config b us"
  have run: "returned (fetchSwaggerDoc w config u st) = Some ?doc"
    using assms(1)
    by (simp add: fetchSwaggerDoc_miss [OF assms(2)] fetchHub_ready [OF assms(3)] Let_def
          returned_def)
  have defs: "definitions ?doc = None"
    by (simp add: combinedDoc_fields)
  have ss: "componentsSchemas ?doc
              = Some (own (foldl (\<lambda>obj d. assign_entries (schemas_of d) obj) empty_object ?ms))"
    by (simp add: combinedDoc_fields processAll_objects no_merged_def)
  have plain: "componentsSchemas ?doc = Some (foldl (\<lambda>acc d. acc ++ schemas_of d) Map.empty ?ms)"
    if "\<forall>d\<in>set ?ms. ''__proto__'' \<notin> dom (schemas_of d)"
    by (simp add: ss fold_assign_plain [OF that] empty_object_def)
  have only: "\<exists>d\<in>set ?ms. k \<in> dom (schemas_of d)" if "k \<in> dom (schemas_of ?doc)" for k
  proof -
    from that ss
    have "k \<in> dom (own (foldl (\<lambda>obj d. assign_entries (schemas_of d) obj) empty_object ?ms))"
      by (simp add: schemas_of_def [of ?doc])
    with fold_assign_dom_upper [of schemas_of empty_object ?ms]
    have "k \<in> dom (own empty_object) \<union> (\<Union>d\<in>set ?ms. dom (schemas_of d))"
      by (rule subsetD)
    then have "k \<in> (\<Union>d\<in>set ?ms. dom (schemas_of d))"
      by (simp add: empty_object_def)
    then show ?thesis
      by (simp only: UN_iff)
  qed
  show "\<exists>doc. returned (fetchSwaggerDoc w config u st) = Some doc \<and>
            definitions doc = None \<and>
            componentsSchemas doc
              = Some (own (foldl (\<lambda>obj d. assign_entries (schemas_of d) obj) empty_object
                             (merged_sources w config b us))) \<and>
            ((\<forall>d\<in>set (merged_sources w config b us). ''__proto__'' \<notin> dom (schemas_of d)) \<longrightarrow>
               componentsSchemas doc
                 = Some (foldl (\<lambda>acc d. acc ++ schemas_of d) Map.empty
                           (merged_sources w config b us))) \<and>
            (\<forall>k. k \<in> dom (schemas_of doc) \<longrightarrow>
               (\<exists>d\<in>set (merged_sources w config b us). k \<in> dom (schemas_of d)))"
  proof (intro exI conjI)
    show "returned (fetchSwaggerDoc w config u st) = Some ?doc" by (rule run)
    show "definitions ?doc = None" by (rule defs)
    show "componentsSchemas ?doc
            = Some (own (foldl (\<lambda>obj d. assign_entries (schemas_of d) obj) empty_object ?ms))"
      by (rule ss)
    show "(\<forall>d\<in>set ?ms. ''__proto__'' \<notin> dom (schemas_of d)) \<longrightarrow>
            componentsSchemas ?doc = Some (foldl (\<lambda>acc d. acc ++ schemas_of d) Map.empty ?ms)"
    proof (rule impI)
      assume "\<forall>d\<in>set ?ms. ''__proto__'' \<notin> dom (schemas_of d)"
      then show "componentsSchemas ?doc = Some (foldl (\<lambda>acc d. acc ++ schemas_of d) Map.empty ?ms)"
        by (rule plain)
    qed
    show "\<forall>k. k \<in> dom (schemas_of ?doc) \<longrightarrow> (\<exists>d\<in>set ?ms. k \<in> dom (schemas_of d))"
    proof (intro allI impI)
      fix k
      assume "k \<in> dom (schemas_of ?doc)"
      then show "\<exists>d\<in>set ?ms. k \<in> dom (schemas_of d)"
        by (rule only)
    qed
  qed
next
  fix d s x m v v'
  show "componentsSchemas d = Some s \<longrightarrow> schemas_of d = s"
    by (simp add: schemas_of_def)
  show "componentsSchemas d = None \<and> definitions d = Some x \<longrightarrow> schemas_of d = x"
    by (simp add: schemas_of_def)
  show "componentsSchemas d = None \<and> definitions d = None \<longrightarrow> schemas_of d = Map.empty"
    by (simp add: schemas_of_def)
  show "allSchemas (mergeSchemas d m) = assign_entries (schemas_of d) (allSchemas m)"
    by (simp add: mergeSchemas_def schemas_of_def assign_entries_empty split: option.splits)
  show "mergeSchemas (d\<lparr>openapi := v, swagger := v'\<rparr>) m = mergeSchemas d m"
    by (simp add: mergeSchemas_def componentsSchemas_def split: option.splits)
qed

theorem merge_reads_schemas_by_presence_witness:
  "\<not> isDirectUrl hub_url \<and>
   \<not> fresh_entry legacy_world no_auth new_fetcher hub_url \<and>
   hub_ready legacy_world no_auth hub_url hub_base legacy_registry
     [\<lparr>apiUrl = ''legacy.json'', apiName = ''legacy''\<rparr>] \<and>
   merged_sources legacy_world no_auth hub_base [\<lparr>apiUrl = ''legacy.json'', apiName = ''legacy''\<rparr>]
     = [legacy_both] \<and>
   swagger legacy_both = Some ''2.0'' \<and>
   componentsSchemas legacy_both = Some [''Pet'' \<mapsto> JStr ''modern''] \<and>
   definitions legacy_both = Some [''Old'' \<mapsto> JStr ''legacy''] \<and>
   (\<exists>doc. returned (fetchSwaggerDoc legacy_world no_auth hub_url new_fetcher) = Some doc \<and>
      definitions doc = None \<and>
      componentsSchemas doc = Some [''Pet'' \<mapsto> JStr ''modern''])"
proof -
  let ?us = "[\<lparr>apiUrl = ''legacy.json'', apiName = ''legacy''\<rparr>]"
  have miss: "\<not> fresh_entry legacy_world no_auth new_fetcher hub_url"
    by (rule new_fetcher_miss)
  note T = merge_reads_schemas_by_presence [OF hub_url_not_direct miss legacy_world_ready]
  have c: "componentsSchemas legacy_both = Some [''Pet'' \<mapsto> JStr ''modern'']"
    by (simp add: legacy_both_def componentsSchemas_def)
  from T [THEN conjunct2, THEN spec, of legacy_both] c
  have s: "schemas_of legacy_both = [''Pet'' \<mapsto> JStr ''modern'']"
    by simp
  have ms: "merged_sources legacy_world no_auth hub_base ?us = [legacy_both]"
    using legacy_individual
    by (simp add: merged_sources_Cons merged_sources_Nil merged_source_def legacy_both_def)
  from T [THEN conjunct1]
  obtain doc where run: "returned (fetchSwaggerDoc legacy_world no_auth hub_url new_fetcher) = Some doc"
    and defs: "definitions doc = None"
    and plain: "(\<forall>d\<in>set (merged_sources legacy_world no_auth hub_base ?us).
                    ''__proto__'' \<notin> dom (schemas_of d)) \<longrightarrow>
                componentsSchemas doc
                  = Some (foldl (\<lambda>acc d. acc ++ schemas_of d) Map.empty
                            (merged_sources legacy_world no_auth hub_base ?us))"
    by (elim exE conjE) (rule that)
  from plain have "componentsSchemas doc = Some [''Pet'' \<mapsto> JStr ''modern'']"
    by (simp add: ms s)
  with run defs
  have "\<exists>doc. returned (fetchSwaggerDoc legacy_world no_auth hub_url new_fetcher) = Some doc \<and>
      definitions doc = None \<and>
      componentsSchemas doc = Some [''Pet'' \<mapsto> JStr ''modern'']"
    by (intro exI [of _ doc]) simp
  moreover have "swagger legacy_both = Some ''2.0''"
    and "definitions legacy_both = Some [''Old'' \<mapsto> JStr ''legacy'']"
    by (simp_all add: legacy_both_def)
  ultimately show ?thesis
    using hub_url_not_direct miss legacy_world_ready ms c
    by (intro conjI)
qed

text \<open>
  The claim as stated fails on a document that says \<open>swagger: "2.0"\<close> and carries both
  maps: the composite gets the schemas of \<open>components.schemas\<close>, not those of
  \<open>definitions\<close>.
\<close>

theorem legacy_document_merged_from_components:
  "openapi legacy_both = None \<and> swagger legacy_both = Some ''2.0'' \<and>
   definitions legacy_both = Some [''Old'' \<mapsto> JStr ''legacy''] \<and>
   fst (fetchIndividualSwaggerDoc legacy_world no_auth hub_base ''legacy.json'')
     = Inr (Obj legacy_both) \<and>
   map_option componentsSchemas
       (returned (fetchSwaggerDoc legacy_world no_auth hub_url new_fetcher))
     = Some (Some [''Pet'' \<mapsto> JStr ''modern'']) \<and>
   [''Pet'' \<mapsto> JStr ''modern''] ''Old'' = (None :: json option)"
proof -
  have a: "fst (fetchIndividualSwaggerDoc legacy_world no_auth hub_base
          (apiUrl \<lparr>apiUrl = ''legacy.json'', apiName = ''legacy''\<rparr>)) = Inr (Obj legacy_both)"
    using legacy_individual by simp
  have loop: "processAll legacy_world no_auth hub_base
                [\<lparr>apiUrl = ''legacy.json'', apiName = ''legacy''\<rparr>]
                (new_fetcher\<lparr>swaggerConfig := Obj legacy_registry, combinedDocs := []\<rparr>) no_merged
              = (new_fetcher\<lparr>swaggerConfig := Obj legacy_registry,
                   combinedDocs := [(''legacy'', docWithSource (Obj legacy_both) ''legacy'')]\<rparr>,
                 mergeTags legacy_both (mergeSchemas legacy_both (mergePaths Map.empty no_merged)),
                 [fullUrl hub_base \<lparr>apiUrl = ''legacy.json'', apiName = ''legacy''\<rparr>])"
    by (simp add: processApiConfig_merged [OF a, of Map.empty] legacy_both_def)
  have s: "schemas_of legacy_both = [''Pet'' \<mapsto> JStr ''modern'']"
    by (simp add: schemas_of_def componentsSchemas_def legacy_both_def)
  have "allSchemas (mergeTags legacy_both (mergeSchemas legacy_both (mergePaths Map.empty no_merged)))
          = empty_object\<lparr>own := [''Pet'' \<mapsto> JStr ''modern'']\<rparr>"
    by (simp add: merged_objects s assign_entries_plain no_merged_def empty_object_def)
  then have "map_option componentsSchemas
          (returned (fetchSwaggerDoc legacy_world no_auth hub_url new_fetcher))
        = Some (Some [''Pet'' \<mapsto> JStr ''modern''])"
    by (simp add: hub_run [OF hub_url_not_direct new_fetcher_miss legacy_world_ready loop]
          returned_def combinedDoc_fields)
  with legacy_individual show ?thesis
    by (simp add: legacy_both_def)
qed

section \<open>Properties of fetchSwaggerDoc: blank responses\<close>

text \<open>
  C6. A response text that is empty or consists of white space only is rejected on the
  hub path: \<open>fetchIndividualSwaggerDoc\<close> throws \<open>Empty response\<close> before any parser runs.
  The direct path has no such check: it hands the blank text to \<open>YAML.parse\<close>, and
  whatever value the parser returns for it (\<open>null\<close> for the empty document) is returned
  as the document and stored in the cache. So the claim holds for hub-mode documents and
  fails for direct-URL documents.
\<close>

theorem blank_text_rejected_by_hub_only:
  "(axios_get w (b @ ''/'' @ p) (request_config w config) = Some (Text text) \<and>
    (\<forall>c\<in>set text. isWhiteSpace c) \<longrightarrow>
      fst (fetchIndividualSwaggerDoc w config b p)
        = Inl (Wrapped (''Failed to fetch individual Swagger doc from '' @ p) EmptyResponse)) \<and>
   (isDirectUrl u \<and> \<not> fresh_entry w config st u \<and>
    axios_get w u (request_config w config) = Some (Text text) \<and>
    (\<forall>c\<in>set text. isWhiteSpace c) \<and> YAML_parse w text = Some v \<longrightarrow>
      fetchSwaggerDoc w config u st
        = (Inr v, st\<lparr>cache := (cache st)(u \<mapsto> (v, now_store w))\<rparr>, [u]))"
proof (intro conjI impI)
  assume "axios_get w (b @ ''/'' @ p) (request_config w config) = Some (Text text) \<and>
          (\<forall>c\<in>set text. isWhiteSpace c)"
  then show "fst (fetchIndividualSwaggerDoc w config b p)
        = Inl (Wrapped (''Failed to fetch individual Swagger doc from '' @ p) EmptyResponse)"
    by (simp add: fetchIndividualSwaggerDoc_def authenticatedRequest_def Let_def trim_empty_iff)
next
  assume h: "isDirectUrl u \<and> \<not> fresh_entry w config st u \<and>
    axios_get w u (request_config w config) = Some (Text text) \<and>
    (\<forall>c\<in>set text. isWhiteSpace c) \<and> YAML_parse w text = Some v"
  then have "fetchDirect w config u st
           = (Inr v, st\<lparr>cache := (cache st)(u \<mapsto> (v, now_store w))\<rparr>, [u])"
    by (intro fetchDirect_parsed) auto
  with h show "fetchSwaggerDoc w config u st
        = (Inr v, st\<lparr>cache := (cache st)(u \<mapsto> (v, now_store w))\<rparr>, [u])"
    by (simp add: fetchSwaggerDoc_miss)
qed

theorem blank_text_rejected_by_hub_only_witness:
  "axios_get blank_world (hub_base @ ''/'' @ ''a.yaml'') (request_config blank_world no_auth)
     = Some (Text ''  '') \<and>
   fst (fetchIndividualSwaggerDoc blank_world no_auth hub_base ''a.yaml'')
     = Inl (Wrapped ''Failed to fetch individual Swagger doc from a.yaml'' EmptyResponse) \<and>
   isDirectUrl direct_url \<and> \<not> fresh_entry blank_world no_auth new_fetcher direct_url \<and>
   axios_get blank_world direct_url (request_config blank_world no_auth) = Some (Text []) \<and>
   YAML_parse blank_world [] = Some Null \<and>
   fst (fetchSwaggerDoc blank_world no_auth direct_url new_fetcher) = Inr Null \<and>
   cache (fst (snd (fetchSwaggerDoc blank_world no_auth direct_url new_fetcher))) direct_url
     = Some (Null, 2005)"
  using blank_text_rejected_by_hub_only [of blank_world _ _ no_auth "[]" direct_url new_fetcher Null]
    blank_text_rejected_by_hub_only [of blank_world hub_base "''a.yaml''" no_auth "''  ''"]
    new_fetcher_miss [of blank_world no_auth direct_url]
  by (simp add: blank_world_def table_world_def isDirectUrl_def endsWith_def direct_url_def
        hub_base_def isWhiteSpace_def)

section \<open>Properties of getApiSources and getDocBySource\<close>

text \<open>
  C8, as the code has it. A top-level fetch in single-document mode (URL ending in
  \<open>.json\<close>, \<open>.yaml\<close> or \<open>.yml\<close>) leaves the registry state and the retained per-source
  documents exactly as they were: after it \<open>getApiSources\<close> and \<open>getDocBySource\<close> answer
  what they answered before it. On a fetcher that has fetched nothing in hub mode they
  answer with the empty sequence and with no document.
\<close>

theorem direct_fetch_leaves_sources:
  assumes "endsWith u ''.json'' \<or> endsWith u ''.yaml'' \<or> endsWith u ''.yml''"
  shows "swaggerConfig (fst (snd (fetchSwaggerDoc w config u st))) = swaggerConfig st \<and>
         combinedDocs (fst (snd (fetchSwaggerDoc w config u st))) = combinedDocs st \<and>
         getApiSources (fst (snd (fetchSwaggerDoc w config u st))) = getApiSources st \<and>
         getDocBySource (fst (snd (fetchSwaggerDoc w config u st))) n = getDocBySource st n \<and>
         getApiSources new_fetcher = [] \<and> getDocBySource new_fetcher n = None"
proof -
  from assms have direct: "isDirectUrl u" by (simp add: isDirectUrl_def)
  have "swaggerConfig (fst (snd (fetchSwaggerDoc w config u st))) = swaggerConfig st \<and>
        combinedDocs (fst (snd (fetchSwaggerDoc w config u st))) = combinedDocs st"
  proof (cases "fresh_entry w config st u")
    case True
    then show ?thesis
      by (auto simp: fetchSwaggerDoc_def fresh_entry_def split: option.splits response.splits)
  next
    case False
    with direct fetchDirect_cases [of w config u st] show ?thesis
      by (auto simp: fetchSwaggerDoc_miss)
  qed
  then show ?thesis
    by (simp add: getApiSources_def getDocBySource_def new_fetcher_def)
qed

theorem direct_fetch_leaves_sources_witness:
  "endsWith direct_url ''.yaml'' \<and>
   after_direct = fst (snd (fetchSwaggerDoc (petstore_world 3000) no_auth direct_url after_hub)) \<and>
   getApiSources after_direct = getApiSources after_hub \<and>
   getDocBySource after_direct ''gamma'' = getDocBySource after_hub ''gamma'' \<and>
   getApiSources (fst (snd (fetchSwaggerDoc (petstore_world 3000) no_auth direct_url new_fetcher)))
     = [] \<and>
   getDocBySource (fst (snd (fetchSwaggerDoc (petstore_world 3000) no_auth direct_url new_fetcher)))
     ''gamma'' = None"
  using direct_fetch_leaves_sources [of direct_url "petstore_world 3000" no_auth after_hub "''gamma''"]
    direct_fetch_leaves_sources [of direct_url "petstore_world 3000" no_auth new_fetcher "''gamma''"]
  by (simp add: after_direct_def endsWith_def direct_url_def)

text \<open>
  The claim as stated fails when a hub-mode fetch came first: the direct fetch that
  follows clears nothing, and \<open>getApiSources\<close> still lists the sources of the hub while
  \<open>getDocBySource\<close> still finds its documents.
\<close>

theorem direct_fetch_after_hub_keeps_sources:
  "isDirectUrl direct_url \<and>
   fst (fetchSwaggerDoc (petstore_world 3000) no_auth direct_url after_hub) = Inr (Obj petstore) \<and>
   after_direct = fst (snd (fetchSwaggerDoc (petstore_world 3000) no_auth direct_url after_hub)) \<and>
   getApiSources after_direct
     = [\<lparr>source_name = ''alpha''\<rparr>, \<lparr>source_name = ''beta''\<rparr>, \<lparr>source_name = ''gamma''\<rparr>] \<and>
   getDocBySource after_direct ''alpha'' = Some (docWithSource (Obj alpha_doc) ''alpha'')"
proof -
  have direct: "isDirectUrl direct_url"
    by (simp add: isDirectUrl_def endsWith_def direct_url_def)
  have miss: "\<not> fresh_entry (petstore_world 3000) no_auth after_hub direct_url"
    using after_hub_eval by (simp add: fresh_entry_def)
  have "fetchDirect (petstore_world 3000) no_auth direct_url after_hub
          = (Inr (Obj petstore),
             after_hub\<lparr>cache := (cache after_hub)
               (direct_url \<mapsto> (Obj petstore, now_store (petstore_world 3000)))\<rparr>,
             [direct_url])"
    by (rule fetchDirect_parsed [where body = petstore_text])
       (simp_all add: petstore_world_def table_world_def)
  with direct have run: "fetchSwaggerDoc (petstore_world 3000) no_auth direct_url after_hub
          = (Inr (Obj petstore),
             after_hub\<lparr>cache := (cache after_hub)
               (direct_url \<mapsto> (Obj petstore, now_store (petstore_world 3000)))\<rparr>,
             [direct_url])"
    by (simp add: fetchSwaggerDoc_miss [OF miss])
  with direct after_hub_eval show ?thesis
    by (simp add: after_direct_def getApiSources_def getDocBySource_def registry_def)
qed

end
